theory Spec2Isabelle
  imports Main "HOL-Library.AList" "HOL-Library.Char_ord" "HOL-Library.List_Lexorder"
begin

text \<open>
  A shallow embedding of \<^verbatim>\<open>build.py\<close>, the helper that builds macOS versions of the
  ZDoom family of source ports. The script is sequential orchestration: it parses its
  arguments, selects or detects a target, and then prepares a prefix directory, fetches
  the sources, generates build files, compiles and packages.

  The embedding keeps the structure of the script. Its two classes are the records
  \<open>target\<close> and \<open>builder\<close>; every method is a function of the same name. What the
  script does to its surroundings is made explicit: the file system, the process
  environment and the sequence of effects form the record \<open>world\<close>, which every stage
  takes and returns; a Python exception is the \<open>Inl\<close> branch of a sum. Programs the
  script starts (git, cmake, make, sysctl, open) are not part of it: their behaviour is a
  parameter, the record \<open>host\<close>.

  Text is ASCII: a \<open>string\<close> is a list of 8-bit characters, and the character classes of
  the regular expression and \<open>str.lower\<close> are the ASCII ones.
\<close>

section \<open>Text\<close>

definition os_sep :: string where
  "os_sep = ''/''"

definition os_pathsep :: string where
  "os_pathsep = '':''"

definition ascii_uppercase :: string where
  "ascii_uppercase = ''ABCDEFGHIJKLMNOPQRSTUVWXYZ''"

definition ascii_lowercase :: string where
  "ascii_lowercase = ''abcdefghijklmnopqrstuvwxyz''"

definition digits :: string where
  "digits = ''0123456789''"

text \<open>\<^verbatim>\<open>str.lower\<close>, one character at a time.\<close>

definition lower_char :: "char \<Rightarrow> char" where
  "lower_char c = (case map_of (zip ascii_uppercase ascii_lowercase) c of
                     Some l \<Rightarrow> l
                   | None \<Rightarrow> c)"

definition str_lower :: "string \<Rightarrow> string" where
  "str_lower s = map lower_char s"

text \<open>The classes \<^verbatim>\<open>\w\<close> and \<^verbatim>\<open>\s\<close> of the \<^verbatim>\<open>re\<close> module, on ASCII text.\<close>

definition is_word :: "char \<Rightarrow> bool" where
  "is_word c = (c \<in> set (ascii_lowercase @ ascii_uppercase @ digits @ ''_''))"

definition is_space :: "char \<Rightarrow> bool" where
  "is_space c = (c \<in> set [CHR 0x09, CHR 0x0A, CHR 0x0B, CHR 0x0C, CHR 0x0D,
                            CHR 0x1C, CHR 0x1D, CHR 0x1E, CHR 0x1F, CHR '' ''])"

definition startswith :: "string \<Rightarrow> string \<Rightarrow> bool" where
  "startswith s p = (take (length p) s = p)"

definition str_strip :: "string \<Rightarrow> string" where
  "str_strip s = rev (dropWhile is_space (rev (dropWhile is_space s)))"

subsection \<open>The project-declaration pattern\<close>

text \<open>
  \<^verbatim>\<open>re.search(r'project\s*\(\s*(\w+)\s*\)', line, re.IGNORECASE)\<close>.

  \<open>match_project s\<close> is the match that starts at the first character of \<open>s\<close>, and its
  value is group 1. Neighbouring pieces of the pattern accept disjoint characters (a
  space is neither a parenthesis nor a word character), so the greedy choice for each
  \<^verbatim>\<open>\s*\<close> and for \<^verbatim>\<open>\w+\<close> is the only one that can succeed, and no backtracking is needed.
  \<open>re_search_project\<close> tries the start positions from left to right, as \<^verbatim>\<open>re.search\<close> does.
\<close>

fun match_literal_ci :: "string \<Rightarrow> string \<Rightarrow> string option" where
  "match_literal_ci [] s = Some s"
| "match_literal_ci (p # ps) [] = None"
| "match_literal_ci (p # ps) (c # cs) =
     (if lower_char c = lower_char p then match_literal_ci ps cs else None)"

definition match_project :: "string \<Rightarrow> string option" where
  "match_project s =
     (case match_literal_ci ''project'' s of
        None \<Rightarrow> None
      | Some s1 \<Rightarrow>
          (case dropWhile is_space s1 of
             [] \<Rightarrow> None
           | c # s2 \<Rightarrow>
               if c \<noteq> CHR ''('' then None
               else let s3 = dropWhile is_space s2;
                        group1 = takeWhile is_word s3;
                        s4 = dropWhile is_word s3
                    in if group1 = [] then None
                       else (case dropWhile is_space s4 of
                               [] \<Rightarrow> None
                             | d # s5 \<Rightarrow> if d = CHR '')'' then Some group1 else None)))"

fun re_search_project :: "string \<Rightarrow> string option" where
  "re_search_project [] = match_project []"
| "re_search_project (c # cs) =
     (case match_project (c # cs) of
        Some g \<Rightarrow> Some g
      | None \<Rightarrow> re_search_project cs)"

text \<open>
  The loop of \<^verbatim>\<open>_detect_target\<close>: the first line with a match decides, and the captured
  name is lower-cased.
\<close>

fun scan_project_name :: "string list \<Rightarrow> string option" where
  "scan_project_name [] = None"
| "scan_project_name (line # rest) =
     (case re_search_project line of
        Some g \<Rightarrow> Some (str_lower g)
      | None \<Rightarrow> scan_project_name rest)"

subsection \<open>Reading a text file line by line\<close>

text \<open>
  \<^verbatim>\<open>open(path).readlines()\<close>: text mode translates \<^verbatim>\<open>\r\n\<close> and \<^verbatim>\<open>\r\<close> to \<^verbatim>\<open>\n\<close>, and every
  line keeps its newline.
\<close>

fun universal_newlines :: "string \<Rightarrow> string" where
  "universal_newlines [] = []"
| "universal_newlines [c] = (if c = CHR 0x0D then [CHR 0x0A] else [c])"
| "universal_newlines (c # d # s) =
     (if c = CHR 0x0D \<and> d = CHR 0x0A then CHR 0x0A # universal_newlines s
      else if c = CHR 0x0D then CHR 0x0A # universal_newlines (d # s)
      else c # universal_newlines (d # s))"

fun lines_from :: "string \<Rightarrow> string \<Rightarrow> string list" where
  "lines_from acc [] = (if acc = [] then [] else [rev acc])"
| "lines_from acc (c # s) =
     (if c = CHR 0x0A then rev (c # acc) # lines_from [] s else lines_from (c # acc) s)"

definition readlines :: "string \<Rightarrow> string list" where
  "readlines content = lines_from [] (universal_newlines content)"

section \<open>Errors\<close>

datatype error =
    AssertionError
  | KeyError string
  | AttributeError string
  | TypeError
  | FileNotFoundError
  | FileExistsError
  | NotADirectoryError
  | IsADirectoryError
  | OSError
  | CalledProcessError nat

section \<open>The file system\<close>

text \<open>
  A member of a tar archive, as far as \<^verbatim>\<open>tar_filter\<close> touches it: the name and the
  ownership.
\<close>

record tarinfo =
  ti_name :: string
  ti_uname :: string
  ti_gname :: string
  ti_uid :: nat
  ti_gid :: nat

datatype filedata = Text string | TarBz2 "tarinfo list"

text \<open>
  The file system is a tree. A directory lists its entries in directory order; when a
  name occurs twice the first entry is the one that counts. Every existing path
  therefore has directories for all its ancestors.
\<close>

datatype node = File filedata | Link string | Dir "(string \<times> node) list"

datatype kind = KFile | KLink string | KDir

fun kind_of :: "node \<Rightarrow> kind" where
  "kind_of (File d) = KFile"
| "kind_of (Link t) = KLink t"
| "kind_of (Dir es) = KDir"

fun node_at :: "node \<Rightarrow> string list \<Rightarrow> node option" where
  "node_at n [] = Some n"
| "node_at (Dir es) (c # cs) =
     (case map_of es c of None \<Rightarrow> None | Some m \<Rightarrow> node_at m cs)"
| "node_at (File d) (c # cs) = None"
| "node_at (Link t) (c # cs) = None"

definition kind_at :: "node \<Rightarrow> string list \<Rightarrow> kind option" where
  "kind_at r p = map_option kind_of (node_at r p)"

text \<open>
  \<open>put r p n\<close> stores \<open>n\<close> at the place \<open>p\<close>: it replaces what is there, or adds a new
  last entry to the parent directory. \<open>unlink r p\<close> removes the entry \<open>p\<close> with
  everything below it.
\<close>

fun put :: "node \<Rightarrow> string list \<Rightarrow> node \<Rightarrow> node" where
  "put old [] n = n"
| "put (Dir es) (c # cs) n =
     (case map_of es c of
        None \<Rightarrow> (if cs = [] then Dir (es @ [(c, n)]) else Dir es)
      | Some m \<Rightarrow> Dir (AList.update c (put m cs n) es))"
| "put (File d) (c # cs) n = File d"
| "put (Link t) (c # cs) n = Link t"

fun unlink :: "node \<Rightarrow> string list \<Rightarrow> node" where
  "unlink old [] = old"
| "unlink (Dir es) (c # cs) =
     (if cs = [] then Dir (AList.delete c es)
      else case map_of es c of
             None \<Rightarrow> Dir es
           | Some m \<Rightarrow> Dir (AList.update c (unlink m cs) es))"
| "unlink (File d) (c # cs) = File d"
| "unlink (Link t) (c # cs) = Link t"

subsection \<open>Path names\<close>

text \<open>
  A path name is a string; the kernel reads it as a list of components separated by
  slashes, where repeated and trailing slashes separate nothing.
\<close>

fun split_at_sep :: "string \<Rightarrow> string \<Rightarrow> string list" where
  "split_at_sep acc [] = (if acc = [] then [] else [rev acc])"
| "split_at_sep acc (c # cs) =
     (if c = CHR ''/''
      then (if acc = [] then split_at_sep [] cs else rev acc # split_at_sep [] cs)
      else split_at_sep (c # acc) cs)"

definition split_path :: "string \<Rightarrow> string list" where
  "split_path s = split_at_sep [] s"

definition is_abs :: "string \<Rightarrow> bool" where
  "is_abs s = startswith s os_sep"

definition ends_with_sep :: "string \<Rightarrow> bool" where
  "ends_with_sep s = (s \<noteq> [] \<and> last s = CHR ''/'')"

definition os_path_join :: "string \<Rightarrow> string \<Rightarrow> string" where
  "os_path_join a b =
     (if startswith b os_sep then b
      else if a = [] \<or> ends_with_sep a then a @ b
      else a @ os_sep @ b)"

definition os_path_basename :: "string \<Rightarrow> string" where
  "os_path_basename s = rev (takeWhile (\<lambda>c. c \<noteq> CHR ''/'') (rev s))"

subsection \<open>Path resolution\<close>

text \<open>
  \<open>walk r fuel here cs\<close> resolves the components \<open>cs\<close> from the directory \<open>here\<close>,
  following every symbolic link on the way, the last one included. The result is the
  place of the object found, or the place where the last component is missing from an
  existing directory, or an error. \<open>fuel\<close> bounds the number of links followed, as the
  kernel does (\<^verbatim>\<open>ELOOP\<close>).
\<close>

datatype resolution = Found "string list" | Missing "string list" | Failed error

definition max_links :: nat where
  "max_links = 32"

fun walk :: "node \<Rightarrow> nat \<Rightarrow> string list \<Rightarrow> string list \<Rightarrow> resolution" where
  "walk r fuel here [] = Found here"
| "walk r fuel here (c # cs) =
     (if c = ''.'' then walk r fuel here cs
      else if c = ''..'' then walk r fuel (butlast here) cs
      else case kind_at r (here @ [c]) of
             None \<Rightarrow> (if cs = [] then Missing (here @ [c]) else Failed FileNotFoundError)
           | Some KDir \<Rightarrow> walk r fuel (here @ [c]) cs
           | Some KFile \<Rightarrow> (if cs = [] then Found (here @ [c]) else Failed NotADirectoryError)
           | Some (KLink t) \<Rightarrow>
               (case fuel of
                  0 \<Rightarrow> Failed OSError
                | Suc k \<Rightarrow> walk r k (if is_abs t then [] else here) (split_path t @ cs)))"

section \<open>The process and its surroundings\<close>

text \<open>
  Every change the script makes is recorded in the order it happens: the places are the
  resolved ones.
\<close>

datatype event =
    Mkdir "string list"
  | Rmtree "string list"
  | Symlink string "string list"
  | Copy string "string list"
  | Remove "string list"
  | WriteArchive "string list"
  | Putenv string string
  | Exec "string list" "string list"

record world =
  fs :: node
  cwd :: "string list"
  environ :: "(string \<times> string) list"
  trace :: "event list"

text \<open>
  What lies outside the script. \<open>exec h args dir env r\<close> runs a program in the directory
  \<open>dir\<close> on the file system \<open>r\<close>: it gives the exit status, the standard output and the
  file system the program leaves behind, or \<open>None\<close> when the program cannot be started.
  \<open>st_owner\<close> gives the user and group id of a file; \<open>pw_name\<close> and \<open>gr_name\<close> are the
  user and group databases.
\<close>

record host =
  exec :: "string list \<Rightarrow> string list \<Rightarrow> (string \<times> string) list \<Rightarrow> node
             \<Rightarrow> (nat \<times> string \<times> node) option"
  st_owner :: "string \<Rightarrow> nat \<times> nat"
  pw_name :: "nat \<Rightarrow> string"
  gr_name :: "nat \<Rightarrow> string"

subsection \<open>Looking a path up\<close>

text \<open>
  Resolution starts at the root for an absolute path and at the working directory
  otherwise; the empty path names nothing.
\<close>

definition start_dir :: "world \<Rightarrow> string \<Rightarrow> string list option" where
  "start_dir w s =
     (if s = [] then None
      else if is_abs s then (if kind_at (fs w) [] = Some KDir then Some [] else None)
      else if kind_at (fs w) (cwd w) = Some KDir then Some (cwd w)
      else None)"

definition exists_at :: "world \<Rightarrow> string list \<Rightarrow> string list \<Rightarrow> bool" where
  "exists_at w h cs =
     (case walk (fs w) max_links h cs of
        Found p \<Rightarrow> kind_at (fs w) p \<noteq> None
      | Missing p \<Rightarrow> False
      | Failed e \<Rightarrow> False)"

definition isdir_at :: "world \<Rightarrow> string list \<Rightarrow> string list \<Rightarrow> bool" where
  "isdir_at w h cs =
     (case walk (fs w) max_links h cs of
        Found p \<Rightarrow> kind_at (fs w) p = Some KDir
      | Missing p \<Rightarrow> False
      | Failed e \<Rightarrow> False)"

text \<open>
  \<^verbatim>\<open>os.stat\<close>: symbolic links are followed, and a path that ends in a slash must name a
  directory.
\<close>

definition os_stat :: "world \<Rightarrow> string \<Rightarrow> error + (string list \<times> kind)" where
  "os_stat w s =
     (case start_dir w s of
        None \<Rightarrow> Inl FileNotFoundError
      | Some h \<Rightarrow>
          (case walk (fs w) max_links h (split_path s) of
             Found p \<Rightarrow>
               (case kind_at (fs w) p of
                  None \<Rightarrow> Inl FileNotFoundError
                | Some k \<Rightarrow> if ends_with_sep s \<and> k \<noteq> KDir then Inl NotADirectoryError
                            else Inr (p, k))
           | Missing p \<Rightarrow> Inl FileNotFoundError
           | Failed e \<Rightarrow> Inl e))"

definition os_path_exists :: "world \<Rightarrow> string \<Rightarrow> bool" where
  "os_path_exists w s = (case os_stat w s of Inl e \<Rightarrow> False | Inr x \<Rightarrow> True)"

definition os_path_isdir :: "world \<Rightarrow> string \<Rightarrow> bool" where
  "os_path_isdir w s = (case os_stat w s of Inl e \<Rightarrow> False | Inr x \<Rightarrow> snd x = KDir)"

text \<open>
  The directory entry a path names: the links on the way are followed, the last
  component is not. This is where \<^verbatim>\<open>mkdir\<close>, \<^verbatim>\<open>symlink\<close> and \<^verbatim>\<open>unlink\<close> work.
\<close>

definition entry_at :: "world \<Rightarrow> string list \<Rightarrow> string list \<Rightarrow> resolution" where
  "entry_at w h cs =
     (if cs = [] then Found h
      else case walk (fs w) max_links h (butlast cs) of
             Found d \<Rightarrow>
               if kind_at (fs w) d \<noteq> Some KDir then Failed NotADirectoryError
               else if last cs = ''.'' then Found d
               else if last cs = ''..'' then Found (butlast d)
               else (case kind_at (fs w) (d @ [last cs]) of
                       None \<Rightarrow> Missing (d @ [last cs])
                     | Some k \<Rightarrow> Found (d @ [last cs]))
           | Missing p \<Rightarrow> Failed FileNotFoundError
           | Failed e \<Rightarrow> Failed e)"

subsection \<open>Operations that change the file system\<close>

definition create_at ::
  "world \<Rightarrow> string list \<Rightarrow> string list \<Rightarrow> node \<Rightarrow> (string list \<Rightarrow> event) \<Rightarrow> error + world" where
  "create_at w h cs n ev =
     (case entry_at w h cs of
        Missing p \<Rightarrow> Inr (w\<lparr>fs := put (fs w) p n, trace := trace w @ [ev p]\<rparr>)
      | Found p \<Rightarrow> Inl FileExistsError
      | Failed e \<Rightarrow> Inl e)"

definition os_symlink :: "string \<Rightarrow> string \<Rightarrow> world \<Rightarrow> error + world" where
  "os_symlink src dst w =
     (case start_dir w dst of
        None \<Rightarrow> Inl FileNotFoundError
      | Some h \<Rightarrow> create_at w h (split_path dst) (Link src) (Symlink src))"

text \<open>
  \<^verbatim>\<open>os.makedirs(name, exist_ok=...)\<close>. The library splits \<open>name\<close> into head and tail,
  creates the head first when it does not exist (a \<^verbatim>\<open>FileExistsError\<close> from that is
  passed over), and then makes the leaf; any error of the last \<^verbatim>\<open>mkdir\<close> is passed over
  when \<open>exist_ok\<close> is set and the name is a directory. Here the path is given by its
  components in reverse, the tail first; \<open>ab\<close> says whether it is absolute, so that the
  head of a single relative component is empty and is not looked at.
\<close>

definition mkdir_leaf ::
  "world \<Rightarrow> string list \<Rightarrow> bool \<Rightarrow> string list \<Rightarrow> world \<times> error option" where
  "mkdir_leaf w h exist_ok cs =
     (case create_at w h cs (Dir []) Mkdir of
        Inr w1 \<Rightarrow> (w1, None)
      | Inl e \<Rightarrow> if \<not> exist_ok \<or> \<not> isdir_at w h cs then (w, Some e) else (w, None))"

fun makedirs_rev ::
  "world \<Rightarrow> string list \<Rightarrow> bool \<Rightarrow> bool \<Rightarrow> string list \<Rightarrow> world \<times> error option" where
  "makedirs_rev w h ab exist_ok [] = mkdir_leaf w h exist_ok []"
| "makedirs_rev w h ab exist_ok (tail # rhead) =
     (if (ab \<or> rhead \<noteq> []) \<and> \<not> exists_at w h (rev rhead)
      then (case makedirs_rev w h ab exist_ok rhead of
              (w1, Some e) \<Rightarrow>
                if e \<noteq> FileExistsError then (w1, Some e)
                else if tail = ''.'' then (w1, None)
                else mkdir_leaf w1 h exist_ok (rev (tail # rhead))
            | (w1, None) \<Rightarrow>
                if tail = ''.'' then (w1, None)
                else mkdir_leaf w1 h exist_ok (rev (tail # rhead)))
      else mkdir_leaf w h exist_ok (rev (tail # rhead)))"

definition os_makedirs :: "string \<Rightarrow> bool \<Rightarrow> world \<Rightarrow> error + world" where
  "os_makedirs s exist_ok w =
     (case start_dir w s of
        None \<Rightarrow> Inl FileNotFoundError
      | Some h \<Rightarrow>
          (case makedirs_rev w h (is_abs s) exist_ok (rev (split_path s)) of
             (w1, None) \<Rightarrow> Inr w1
           | (w1, Some e) \<Rightarrow> Inl e))"

text \<open>\<^verbatim>\<open>shutil.rmtree\<close> removes a directory tree and refuses a symbolic link.\<close>

definition shutil_rmtree :: "string \<Rightarrow> world \<Rightarrow> error + world" where
  "shutil_rmtree s w =
     (case start_dir w s of
        None \<Rightarrow> Inl FileNotFoundError
      | Some h \<Rightarrow>
          (case entry_at w h (split_path s) of
             Found p \<Rightarrow>
               (case kind_at (fs w) p of
                  Some KDir \<Rightarrow>
                    if p = [] then Inl OSError
                    else Inr (w\<lparr>fs := unlink (fs w) p, trace := trace w @ [Rmtree p]\<rparr>)
                | Some (KLink t) \<Rightarrow> Inl OSError
                | Some KFile \<Rightarrow> Inl NotADirectoryError
                | None \<Rightarrow> Inl FileNotFoundError)
           | Missing p \<Rightarrow> Inl FileNotFoundError
           | Failed e \<Rightarrow> Inl e))"

definition os_remove :: "string \<Rightarrow> world \<Rightarrow> error + world" where
  "os_remove s w =
     (case start_dir w s of
        None \<Rightarrow> Inl FileNotFoundError
      | Some h \<Rightarrow>
          (case entry_at w h (split_path s) of
             Found p \<Rightarrow>
               (case kind_at (fs w) p of
                  Some KDir \<Rightarrow> Inl IsADirectoryError
                | Some KFile \<Rightarrow>
                    if ends_with_sep s then Inl NotADirectoryError
                    else Inr (w\<lparr>fs := unlink (fs w) p, trace := trace w @ [Remove p]\<rparr>)
                | Some (KLink t) \<Rightarrow>
                    if ends_with_sep s then Inl NotADirectoryError
                    else Inr (w\<lparr>fs := unlink (fs w) p, trace := trace w @ [Remove p]\<rparr>)
                | None \<Rightarrow> Inl FileNotFoundError)
           | Missing p \<Rightarrow> Inl FileNotFoundError
           | Failed e \<Rightarrow> Inl e))"

text \<open>
  Opening a file for writing follows symbolic links, creates the file when it is
  missing and replaces its content otherwise.
\<close>

definition write_file ::
  "string \<Rightarrow> filedata \<Rightarrow> (string list \<Rightarrow> event) \<Rightarrow> world \<Rightarrow> error + world" where
  "write_file s d ev w =
     (if ends_with_sep s then Inl IsADirectoryError
      else case start_dir w s of
             None \<Rightarrow> Inl FileNotFoundError
           | Some h \<Rightarrow>
               (case walk (fs w) max_links h (split_path s) of
                  Found p \<Rightarrow>
                    if kind_at (fs w) p = Some KFile
                    then Inr (w\<lparr>fs := put (fs w) p (File d), trace := trace w @ [ev p]\<rparr>)
                    else Inl IsADirectoryError
                | Missing p \<Rightarrow>
                    Inr (w\<lparr>fs := put (fs w) p (File d), trace := trace w @ [ev p]\<rparr>)
                | Failed e \<Rightarrow> Inl e))"

definition read_file :: "world \<Rightarrow> string \<Rightarrow> error + filedata" where
  "read_file w s =
     (case os_stat w s of
        Inl e \<Rightarrow> Inl e
      | Inr x \<Rightarrow>
          (case node_at (fs w) (fst x) of
             Some (File d) \<Rightarrow> Inr d
           | Some (Dir es) \<Rightarrow> Inl IsADirectoryError
           | Some (Link t) \<Rightarrow> Inl OSError
           | None \<Rightarrow> Inl FileNotFoundError))"

definition open_readlines :: "world \<Rightarrow> string \<Rightarrow> error + string list" where
  "open_readlines w s =
     (case read_file w s of
        Inl e \<Rightarrow> Inl e
      | Inr (Text content) \<Rightarrow> Inr (readlines content)
      | Inr (TarBz2 members) \<Rightarrow> Inl OSError)"

definition samefile :: "world \<Rightarrow> string \<Rightarrow> string \<Rightarrow> bool" where
  "samefile w a b =
     (case os_stat w a of
        Inl e \<Rightarrow> False
      | Inr x \<Rightarrow> (case os_stat w b of Inl e \<Rightarrow> False | Inr y \<Rightarrow> fst x = fst y))"

text \<open>\<^verbatim>\<open>shutil.copy(src, dst)\<close>: into \<open>dst\<close> when that is a directory, onto it otherwise.\<close>

definition shutil_copy :: "string \<Rightarrow> string \<Rightarrow> world \<Rightarrow> error + world" where
  "shutil_copy src dst w =
     (let dst1 = (if os_path_isdir w dst then os_path_join dst (os_path_basename src) else dst)
      in if samefile w src dst1 then Inl OSError
         else (case read_file w src of
                 Inl e \<Rightarrow> Inl e
               | Inr d \<Rightarrow> write_file dst1 d (Copy src) w))"

text \<open>
  \<^verbatim>\<open>os.scandir\<close>: the names in a directory, each once, in directory order. A file name
  is not empty, contains no slash and is neither \<^verbatim>\<open>.\<close> nor \<^verbatim>\<open>..\<close>; an entry of the tree under
  another name cannot be reached by any path and is not listed.
\<close>

definition valid_name :: "string \<Rightarrow> bool" where
  "valid_name n = (n \<noteq> [] \<and> CHR ''/'' \<notin> set n \<and> n \<noteq> ''.'' \<and> n \<noteq> ''..'')"

definition listdir :: "(string \<times> node) list \<Rightarrow> string list" where
  "listdir es = remdups (filter valid_name (map fst es))"

definition os_scandir :: "world \<Rightarrow> string \<Rightarrow> error + string list" where
  "os_scandir w s =
     (case os_stat w s of
        Inl e \<Rightarrow> Inl e
      | Inr x \<Rightarrow>
          (case node_at (fs w) (fst x) of
             Some (Dir es) \<Rightarrow> Inr (listdir es)
           | Some (File d) \<Rightarrow> Inl NotADirectoryError
           | Some (Link t) \<Rightarrow> Inl NotADirectoryError
           | None \<Rightarrow> Inl FileNotFoundError))"

subsection \<open>Child processes\<close>

text \<open>
  \<^verbatim>\<open>subprocess.check_output\<close> and \<^verbatim>\<open>subprocess.check_call\<close>: the working directory must
  be a directory, the program must start, and a non-zero exit status is an error.
\<close>

definition check_output ::
  "host \<Rightarrow> string list \<Rightarrow> string option \<Rightarrow> world \<Rightarrow> error + (string \<times> world)" where
  "check_output h args dir w =
     (case (case dir of
              None \<Rightarrow> Inr (cwd w)
            | Some d \<Rightarrow>
                (case os_stat w d of
                   Inl e \<Rightarrow> Inl e
                 | Inr x \<Rightarrow> if snd x = KDir then Inr (fst x) else Inl NotADirectoryError)) of
        Inl e \<Rightarrow> Inl e
      | Inr p \<Rightarrow>
          (case exec h args p (environ w) (fs w) of
             None \<Rightarrow> Inl FileNotFoundError
           | Some (rc, out, r) \<Rightarrow>
               if rc \<noteq> 0 then Inl (CalledProcessError rc)
               else Inr (out, w\<lparr>fs := r, trace := trace w @ [Exec args p]\<rparr>)))"

definition check_call ::
  "host \<Rightarrow> string list \<Rightarrow> string option \<Rightarrow> world \<Rightarrow> error + world" where
  "check_call h args dir w =
     (case check_output h args dir w of Inl e \<Rightarrow> Inl e | Inr x \<Rightarrow> Inr (snd x))"

section \<open>Targets\<close>

text \<open>
  \<open>post_build\<close> refers to a method of the class; the only one ever assigned is
  \<^verbatim>\<open>Target._copy_moltenvk\<close>.
\<close>

datatype hook = Copy_moltenvk

record target =
  name :: string
  url :: "string option"
  cmake_options :: "(string \<times> string) list"
  post_build :: "hook option"

record builder =
  root_path :: string
  deps_path :: string
  prefix_path :: string
  include_path :: string
  lib_path :: string
  xcode :: bool
  checkout_commit :: "string option"
  generate :: bool
  rebuild_prefix :: bool
  build_path :: string
  sdk_path :: "string option"
  create_package :: bool
  target :: target
  source_path :: string

definition SETUP_PREFIX :: string where
  "SETUP_PREFIX = ''_setup_''"

text \<open>\<^verbatim>\<open>Target.__init__\<close>.\<close>

definition Target :: "string \<Rightarrow> target" where
  "Target n = \<lparr>name = n, url = None, cmake_options = [], post_build = None\<rparr>"

definition extra_libs :: "string list" where
  "extra_libs =
     [''mpg123'',
      ''fluidsynth'', ''instpatch-1.0'', ''glib-2.0'', ''gobject-2.0'', ''intl'', ''ffi'', ''pcre'',
      ''sndfile'', ''ogg'', ''vorbis'', ''vorbisenc'', ''FLAC'', ''opus'']"

definition linker_args :: "builder \<Rightarrow> string" where
  "linker_args b =
     foldl (\<lambda>args lib. args @ '' '' @ lib_path b @ ''lib'' @ lib @ ''.a'')
       (''-framework AudioUnit -framework AudioToolbox -framework Carbon '' @
        ''-framework CoreAudio -framework CoreMIDI -framework CoreVideo -liconv'')
       extra_libs"

text \<open>
  \<^verbatim>\<open>cmake_options\<close> is a dictionary, which keeps the order of insertion: an assignment
  replaces the value of a key in place or adds the key at the end.
\<close>

definition assign_zdoom_raze_cmake_options :: "target \<Rightarrow> builder \<Rightarrow> target" where
  "assign_zdoom_raze_cmake_options t b =
     t\<lparr>cmake_options :=
         AList.update ''OPENAL_LIBRARY'' (lib_path b @ ''libopenal.a'')
        (AList.update ''OPENAL_INCLUDE_DIR'' (include_path b)
        (AList.update ''DYN_OPENAL'' ''NO''
        (AList.update ''PK3_QUIET_ZIPDIR'' ''YES''
        (AList.update ''FORCE_INTERNAL_BZIP2'' ''YES''
        (AList.update ''FORCE_INTERNAL_ZLIB'' ''YES''
        (AList.update ''CMAKE_EXE_LINKER_FLAGS'' (linker_args b)
           (cmake_options t)))))))\<rparr>"

definition setup_gzdoom :: "target \<Rightarrow> builder \<Rightarrow> target" where
  "setup_gzdoom t b =
     assign_zdoom_raze_cmake_options
       (t\<lparr>url := Some ''https://github.com/coelckers/gzdoom.git'',
          post_build := Some Copy_moltenvk\<rparr>) b"

definition setup_qzdoom :: "target \<Rightarrow> builder \<Rightarrow> target" where
  "setup_qzdoom t b =
     assign_zdoom_raze_cmake_options
       (t\<lparr>url := Some ''https://github.com/madame-rachelle/qzdoom.git'',
          post_build := Some Copy_moltenvk\<rparr>) b"

definition setup_lzdoom :: "target \<Rightarrow> builder \<Rightarrow> target" where
  "setup_lzdoom t b =
     assign_zdoom_raze_cmake_options
       (t\<lparr>url := Some ''https://github.com/drfrag666/gzdoom.git''\<rparr>) b"

definition setup_raze :: "target \<Rightarrow> builder \<Rightarrow> target" where
  "setup_raze t b =
     assign_zdoom_raze_cmake_options
       (t\<lparr>url := Some ''https://github.com/coelckers/Raze.git''\<rparr>) b"

text \<open>
  The class \<^verbatim>\<open>Target\<close> as the script inspects it. \<open>dir_Target\<close> is \<^verbatim>\<open>dir(Target)\<close>: the
  names the class defines, in sorted order (the names inherited from \<^verbatim>\<open>object\<close> all
  start with two underscores and are left out). \<open>getattr_Target\<close> gives the setup
  methods by name.
\<close>

definition dir_Target :: "string list" where
  "dir_Target =
     [''_SETUP_PREFIX'', ''__init__'', ''_assign_zdoom_raze_cmake_options'', ''_copy_moltenvk'',
      ''_setup_gzdoom'', ''_setup_lzdoom'', ''_setup_qzdoom'', ''_setup_raze'',
      ''create_targets'', ''get_target_names'', ''setup'']"

definition getattr_Target :: "string \<Rightarrow> (target \<Rightarrow> builder \<Rightarrow> target) option" where
  "getattr_Target =
     map_of [(''_setup_gzdoom'', setup_gzdoom),
             (''_setup_qzdoom'', setup_qzdoom),
             (''_setup_lzdoom'', setup_lzdoom),
             (''_setup_raze'', setup_raze)]"

definition get_target_names :: "string list" where
  "get_target_names =
     map (drop (length SETUP_PREFIX))
       (filter (\<lambda>member. startswith member SETUP_PREFIX) dir_Target)"

definition create_targets :: "(string \<times> target) list" where
  "create_targets = map (\<lambda>n. (n, Target n)) get_target_names"

text \<open>\<^verbatim>\<open>Target.setup\<close>: the setup method is looked up by the name of the target.\<close>

definition target_setup :: "target \<Rightarrow> builder \<Rightarrow> error + target" where
  "target_setup t b =
     (case getattr_Target (SETUP_PREFIX @ name t) of
        None \<Rightarrow> Inl (AttributeError (SETUP_PREFIX @ name t))
      | Some setup_func \<Rightarrow> Inr (setup_func t b))"

text \<open>\<^verbatim>\<open>Target._copy_moltenvk\<close>.\<close>

definition copy_moltenvk :: "builder \<Rightarrow> world \<Rightarrow> error + world" where
  "copy_moltenvk b w =
     (let molten_lib = ''libMoltenVK.dylib'';
          src_path = lib_path b @ molten_lib;
          dst_dir = build_path b @ (if xcode b then ''Debug'' @ os_sep else [])
                      @ name (target b) @ ''.app/Contents/MacOS'' @ os_sep
      in (case os_makedirs dst_dir True w of
            Inl e \<Rightarrow> Inl e
          | Inr w1 \<Rightarrow>
              let dst_path = dst_dir @ molten_lib
              in if \<not> os_path_exists w1 dst_path
                 then (if xcode b then os_symlink src_path dst_path w1
                       else shutil_copy src_path dst_path w1)
                 else Inr w1))"

fun run_hook :: "hook \<Rightarrow> builder \<Rightarrow> world \<Rightarrow> error + world" where
  "run_hook Copy_moltenvk b w = copy_moltenvk b w"

section \<open>Builder\<close>

text \<open>
  The parsed command line. The parser guarantees that exactly one of \<open>arg_target\<close> and
  \<open>arg_source_path\<close> is given and that a given target is a registered name; the
  constructor below does not rely on it.
\<close>

record arguments =
  arg_target :: "string option"
  arg_source_path :: "string option"
  arg_xcode :: bool
  arg_checkout_commit :: "string option"
  arg_build_path :: "string option"
  arg_sdk_path :: "string option"
  arg_skip_generate :: bool
  arg_create_package :: bool
  arg_rebuild_prefix :: bool

text \<open>Python's truth value of an optional string: \<^verbatim>\<open>None\<close> and the empty string are false.\<close>

definition truthy :: "string option \<Rightarrow> string option" where
  "truthy x = (case x of None \<Rightarrow> None | Some s \<Rightarrow> if s = [] then None else Some s)"

text \<open>\<^verbatim>\<open>Builder._detect_target\<close>, called before the source path gets its separator.\<close>

definition detect_target :: "world \<Rightarrow> string \<Rightarrow> (string \<times> target) list \<Rightarrow> error + target" where
  "detect_target w src targets =
     (let cmakelists_path = src @ os_sep @ ''CMakeLists.txt''
      in (case open_readlines w cmakelists_path of
            Inl e \<Rightarrow> Inl e
          | Inr file_lines \<Rightarrow>
              (case truthy (scan_project_name file_lines) of
                 None \<Rightarrow> Inl AssertionError
               | Some project_name \<Rightarrow>
                   (case map_of targets project_name of
                      None \<Rightarrow> Inl (KeyError project_name)
                    | Some t \<Rightarrow> Inr t))))"

text \<open>
  \<^verbatim>\<open>Builder.__init__\<close>. \<open>script_dir\<close> is the directory of the script,
  \<^verbatim>\<open>os.path.dirname(os.path.abspath(__file__))\<close>. The constructor reads the file system
  and changes nothing.
\<close>

definition select_target :: "world \<Rightarrow> string \<Rightarrow> arguments \<Rightarrow> error + (target \<times> string)" where
  "select_target w root a =
     (let targets = create_targets
      in (case truthy (arg_target a) of
            Some n \<Rightarrow>
              (case map_of targets n of
                 None \<Rightarrow> Inl (KeyError n)
               | Some t \<Rightarrow> Inr (t, root @ ''source'' @ os_sep @ name t))
          | None \<Rightarrow>
              (case truthy (arg_source_path a) of
                 None \<Rightarrow> Inl AssertionError
               | Some src \<Rightarrow>
                   (case detect_target w src targets of
                      Inl e \<Rightarrow> Inl e
                    | Inr t \<Rightarrow> Inr (t, src)))))"

definition Builder :: "world \<Rightarrow> string \<Rightarrow> arguments \<Rightarrow> error + builder" where
  "Builder w script_dir a =
     (let root = script_dir @ os_sep;
          prefix = root @ ''prefix'' @ os_sep
      in (case select_target w root a of
            Inl e \<Rightarrow> Inl e
          | Inr sel \<Rightarrow>
              (let t = fst sel;
                   src = snd sel;
                   bp = (case truthy (arg_build_path a) of
                           None \<Rightarrow> root @ ''build'' @ os_sep @ name t @ os_sep
                                     @ (if arg_xcode a then ''xcode'' else ''make'')
                         | Some p \<Rightarrow> p);
                   b = \<lparr>root_path = root,
                        deps_path = root @ ''deps'' @ os_sep,
                        prefix_path = prefix,
                        include_path = prefix @ ''include'' @ os_sep,
                        lib_path = prefix @ ''lib'' @ os_sep,
                        xcode = arg_xcode a,
                        checkout_commit = arg_checkout_commit a,
                        generate = (\<not> arg_skip_generate a),
                        rebuild_prefix = arg_rebuild_prefix a,
                        build_path = bp @ os_sep,
                        sdk_path = arg_sdk_path a,
                        create_package = arg_create_package a,
                        target = t,
                        source_path = src @ os_sep\<rparr>
               in (case target_setup t b of
                     Inl e \<Rightarrow> Inl e
                   | Inr t' \<Rightarrow> Inr (b\<lparr>target := t'\<rparr>)))))"

subsection \<open>Prefix preparation\<close>

text \<open>
  The two inner loops of \<^verbatim>\<open>_create_prefix_directory\<close>: one symbolic link in \<open>dst_dir\<close> for
  every entry of \<open>src_dir\<close>.
\<close>

fun symlink_entries :: "string \<Rightarrow> string \<Rightarrow> string list \<Rightarrow> world \<Rightarrow> error + world" where
  "symlink_entries src_dir dst_dir [] w = Inr w"
| "symlink_entries src_dir dst_dir (entry # rest) w =
     (case os_symlink (os_path_join src_dir entry) (dst_dir @ entry) w of
        Inl e \<Rightarrow> Inl e
      | Inr w1 \<Rightarrow> symlink_entries src_dir dst_dir rest w1)"

text \<open>The body of the outer loop, for the entry \<open>dep\<close> of the dependencies directory.\<close>

definition link_dependency :: "builder \<Rightarrow> string \<Rightarrow> world \<Rightarrow> error + world" where
  "link_dependency b dep w =
     (let dep_path = os_path_join (deps_path b) dep
      in if \<not> os_path_isdir w dep_path then Inr w
         else (let dep_include_path = dep_path @ os_sep @ ''include'' @ os_sep;
                   dep_lib_path = dep_path @ os_sep @ ''lib'' @ os_sep
               in if \<not> os_path_exists w dep_include_path \<or> \<not> os_path_exists w dep_lib_path
                  then Inr w
                  else (case os_scandir w dep_include_path of
                          Inl e \<Rightarrow> Inl e
                        | Inr includes \<Rightarrow>
                            (case symlink_entries dep_include_path (include_path b) includes w of
                               Inl e \<Rightarrow> Inl e
                             | Inr w1 \<Rightarrow>
                                 (case os_scandir w1 dep_lib_path of
                                    Inl e \<Rightarrow> Inl e
                                  | Inr libs \<Rightarrow>
                                      symlink_entries dep_lib_path (lib_path b) libs w1)))))"

fun link_dependencies :: "builder \<Rightarrow> string list \<Rightarrow> world \<Rightarrow> error + world" where
  "link_dependencies b [] w = Inr w"
| "link_dependencies b (dep # rest) w =
     (case link_dependency b dep w of
        Inl e \<Rightarrow> Inl e
      | Inr w1 \<Rightarrow> link_dependencies b rest w1)"

text \<open>\<^verbatim>\<open>Builder._create_prefix_directory\<close>.\<close>

definition create_prefix_directory :: "builder \<Rightarrow> world \<Rightarrow> error + world" where
  "create_prefix_directory b w =
     (if os_path_exists w (prefix_path b) \<and> \<not> rebuild_prefix b then Inr w
      else (case (if os_path_exists w (prefix_path b) then shutil_rmtree (prefix_path b) w
                  else Inr w) of
              Inl e \<Rightarrow> Inl e
            | Inr w1 \<Rightarrow>
                (case os_makedirs (include_path b) False w1 of
                   Inl e \<Rightarrow> Inl e
                 | Inr w2 \<Rightarrow>
                     (case os_makedirs (lib_path b) False w2 of
                        Inl e \<Rightarrow> Inl e
                      | Inr w3 \<Rightarrow>
                          (case os_scandir w3 (deps_path b) of
                             Inl e \<Rightarrow> Inl e
                           | Inr deps \<Rightarrow> link_dependencies b deps w3)))))"

subsection \<open>Source preparation, generation, compilation\<close>

text \<open>\<^verbatim>\<open>Builder._prepare_source\<close>.\<close>

definition prepare_source :: "host \<Rightarrow> builder \<Rightarrow> world \<Rightarrow> error + world" where
  "prepare_source h b w =
     (case (if \<not> os_path_exists w (source_path b)
            then (case url (target b) of
                    None \<Rightarrow> Inl TypeError
                  | Some u \<Rightarrow>
                      check_call h [''git'', ''clone'', u, source_path b] (Some (root_path b)) w)
            else Inr w) of
        Inl e \<Rightarrow> Inl e
      | Inr w1 \<Rightarrow>
          (case truthy (checkout_commit b) of
             None \<Rightarrow> Inr w1
           | Some commit \<Rightarrow>
               check_call h [''git'', ''checkout'', commit] (Some (source_path b)) w1))"

text \<open>\<^verbatim>\<open>Builder._generate_cmake\<close>.\<close>

definition cmake_args :: "builder \<Rightarrow> string list" where
  "cmake_args b =
     [''cmake'',
      (if xcode b then ''-GXcode'' else ''-GUnix Makefiles''),
      ''-DCMAKE_BUILD_TYPE=Release'',
      ''-DCMAKE_PREFIX_PATH='' @ prefix_path b]
     @ (case truthy (sdk_path b) of None \<Rightarrow> [] | Some s \<Rightarrow> [''-DCMAKE_OSX_SYSROOT='' @ s])
     @ map (\<lambda>opt. ''-D'' @ fst opt @ ''='' @ snd opt) (cmake_options (target b))
     @ [source_path b]"

definition generate_cmake :: "host \<Rightarrow> builder \<Rightarrow> world \<Rightarrow> error + world" where
  "generate_cmake h b w =
     (if \<not> generate b then Inr w
      else (case map_of (environ w) ''PATH'' of
              None \<Rightarrow> Inl (KeyError ''PATH'')
            | Some p \<Rightarrow>
                (let search_path = p @ os_pathsep @ ''/Applications/CMake.app/Contents/bin'';
                     w1 = w\<lparr>environ := AList.update ''PATH'' search_path (environ w),
                            trace := trace w @ [Putenv ''PATH'' search_path]\<rparr>
                 in (case os_makedirs (build_path b) True w1 of
                       Inl e \<Rightarrow> Inl e
                     | Inr w2 \<Rightarrow> check_call h (cmake_args b) (Some (build_path b)) w2))))"

text \<open>
  \<^verbatim>\<open>Builder._build_target\<close>. \<open>build_command\<close> is its first half, which chooses the
  command: the project is opened in the IDE, or make runs with as many jobs as the host
  has processors.
\<close>

definition build_command :: "host \<Rightarrow> builder \<Rightarrow> world \<Rightarrow> error + (string list \<times> world)" where
  "build_command h b w =
     (if xcode b then Inr ([''open'', name (target b) @ ''.xcodeproj''], w)
      else (case check_output h [''sysctl'', ''-n'', ''hw.ncpu''] None w of
              Inl e \<Rightarrow> Inl e
            | Inr x \<Rightarrow> Inr ([''make'', ''-j'', str_strip (fst x)], snd x)))"

definition build_target :: "host \<Rightarrow> builder \<Rightarrow> world \<Rightarrow> error + world" where
  "build_target h b w =
     (case build_command h b w of
        Inl e \<Rightarrow> Inl e
      | Inr cmd \<Rightarrow>
          (case check_call h (fst cmd) (Some (build_path b)) (snd cmd) of
             Inl e \<Rightarrow> Inl e
           | Inr w2 \<Rightarrow>
               (case post_build (target b) of
                  None \<Rightarrow> Inr w2
                | Some hk \<Rightarrow> run_hook hk b w2)))"

subsection \<open>Packaging\<close>

text \<open>
  \<^verbatim>\<open>TarFile.gettarinfo\<close> names a member after its path, with backslash-free separators
  and without leading slashes, and takes the ownership from the file.
\<close>

definition gettarinfo :: "host \<Rightarrow> string \<Rightarrow> string \<Rightarrow> tarinfo" where
  "gettarinfo h nm arcname =
     \<lparr>ti_name = dropWhile (\<lambda>c. c = CHR ''/'') arcname,
      ti_uname = pw_name h (fst (st_owner h nm)),
      ti_gname = gr_name h (snd (st_owner h nm)),
      ti_uid = fst (st_owner h nm),
      ti_gid = snd (st_owner h nm)\<rparr>"

text \<open>The local function \<^verbatim>\<open>tar_filter\<close> of \<^verbatim>\<open>_make_package\<close>.\<close>

definition tar_filter :: "nat \<Rightarrow> tarinfo \<Rightarrow> tarinfo" where
  "tar_filter name_pos tarinfo =
     tarinfo\<lparr>ti_name := drop name_pos (ti_name tarinfo),
             ti_uname := ''root'', ti_gname := ''root'',
             ti_uid := 0, ti_gid := 0\<rparr>"

text \<open>
  \<^verbatim>\<open>TarFile.add(name, filter=...)\<close>: the member itself, filtered, and for a directory
  its entries in sorted order, each added the same way under the joined name.
\<close>

function tar_add ::
  "host \<Rightarrow> (tarinfo \<Rightarrow> tarinfo) \<Rightarrow> string \<Rightarrow> string \<Rightarrow> node \<Rightarrow> tarinfo list" where
  "tar_add h flt nm arcname n =
     flt (gettarinfo h nm arcname) #
     (case n of
        Dir es \<Rightarrow>
          concat (map (\<lambda>f. case map_of es f of
                             None \<Rightarrow> []
                           | Some m \<Rightarrow>
                               tar_add h flt (os_path_join nm f) (os_path_join arcname f) m)
                      (sort (listdir es)))
      | File d \<Rightarrow> []
      | Link t \<Rightarrow> [])"
  by pat_completeness auto
termination
proof (relation "measure (\<lambda>(h, flt, nm, arcname, n). size n)")
  show "wf (measure (\<lambda>(h, flt, nm, arcname, n). size n))"
    by simp
next
  fix h :: host and flt :: "tarinfo \<Rightarrow> tarinfo" and nm arcname :: string
  fix n :: node and es :: "(string \<times> node) list" and f :: string and m :: node
  assume n: "n = Dir es" and m: "map_of es f = Some m"
  have "map_of xs f = Some m \<Longrightarrow> size m < Suc (size_list (size_prod (\<lambda>x. 0) size) xs)"
    for xs :: "(string \<times> node) list"
    by (induction xs) (auto split: if_splits)
  from this [OF m] n
  show "((h, flt, os_path_join nm f, os_path_join arcname f, m), (h, flt, nm, arcname, n))
          \<in> measure (\<lambda>(h, flt, nm, arcname, n). size n)"
    by simp
qed

declare tar_add.simps [simp del]

definition tarfile_open :: "string \<Rightarrow> world \<Rightarrow> error + (string list \<times> world)" where
  "tarfile_open s w =
     (case write_file s (TarBz2 []) WriteArchive w of
        Inl e \<Rightarrow> Inl e
      | Inr w1 \<Rightarrow>
          (case os_stat w1 s of
             Inl e \<Rightarrow> Inl e
           | Inr x \<Rightarrow> Inr (fst x, w1)))"

definition tarfile_add ::
  "host \<Rightarrow> (tarinfo \<Rightarrow> tarinfo) \<Rightarrow> string \<Rightarrow> world \<Rightarrow> error + tarinfo list" where
  "tarfile_add h flt nm w =
     (case start_dir w nm of
        None \<Rightarrow> Inl FileNotFoundError
      | Some st \<Rightarrow>
          (case entry_at w st (split_path nm) of
             Found p \<Rightarrow>
               (case node_at (fs w) p of
                  None \<Rightarrow> Inl FileNotFoundError
                | Some n \<Rightarrow> Inr (tar_add h flt nm nm n))
           | Missing p \<Rightarrow> Inl FileNotFoundError
           | Failed e \<Rightarrow> Inl e))"

definition tarfile_close :: "string list \<Rightarrow> tarinfo list \<Rightarrow> world \<Rightarrow> world" where
  "tarfile_close p members w = w\<lparr>fs := put (fs w) p (File (TarBz2 members))\<rparr>"

text \<open>\<^verbatim>\<open>Builder._make_package\<close>.\<close>

definition make_package :: "host \<Rightarrow> builder \<Rightarrow> world \<Rightarrow> error + world" where
  "make_package h b w =
     (if \<not> create_package b \<or> xcode b then Inr w
      else (case check_output h [''git'', ''describe'', ''--tags''] (Some (source_path b)) w of
              Inl e \<Rightarrow> Inl e
            | Inr x \<Rightarrow>
                (let version = str_strip (fst x);
                     w1 = snd x;
                     package_path = build_path b @ name (target b) @ ''-'' @ version @ ''.tar.bz2'';
                     name_pos = length (build_path b) - 1
                 in (case (if os_path_exists w1 package_path then os_remove package_path w1
                           else Inr w1) of
                       Inl e \<Rightarrow> Inl e
                     | Inr w2 \<Rightarrow>
                         (case tarfile_open package_path w2 of
                            Inl e \<Rightarrow> Inl e
                          | Inr package \<Rightarrow>
                              (let bundle_path = build_path b @ name (target b) @ ''.app''
                               in (case tarfile_add h (tar_filter name_pos) bundle_path
                                          (snd package) of
                                     Inl e \<Rightarrow> Inl e
                                   | Inr members \<Rightarrow>
                                       Inr (tarfile_close (fst package) members
                                              (snd package)))))))))"

text \<open>\<^verbatim>\<open>Builder.run\<close>: the five stages in their fixed order; the first error ends the run.\<close>

definition run :: "host \<Rightarrow> builder \<Rightarrow> world \<Rightarrow> error + world" where
  "run h b w =
     (case create_prefix_directory b w of
        Inl e \<Rightarrow> Inl e
      | Inr w1 \<Rightarrow>
          (case prepare_source h b w1 of
             Inl e \<Rightarrow> Inl e
           | Inr w2 \<Rightarrow>
               (case generate_cmake h b w2 of
                  Inl e \<Rightarrow> Inl e
                | Inr w3 \<Rightarrow>
                    (case build_target h b w3 of
                       Inl e \<Rightarrow> Inl e
                     | Inr w4 \<Rightarrow> make_package h b w4))))"

section \<open>A concrete installation\<close>

text \<open>
  The script lies in \<^verbatim>\<open>/r\<close>. There are two dependencies, of which \<^verbatim>\<open>docs\<close> has no \<^verbatim>\<open>lib\<close>
  directory; the sources of gzdoom are checked out; \<^verbatim>\<open>/r/out\<close> holds an application
  bundle from an earlier build; the directories in \<^verbatim>\<open>/tmp\<close> are source trees supplied from
  outside. There is no \<^verbatim>\<open>/tmp/nowhere\<close>.
  Every program succeeds, and prints \<^verbatim>\<open>4\<close> and a newline. The files belong to the user
  \<^verbatim>\<open>alice\<close> of the group \<^verbatim>\<open>staff\<close>.
\<close>

definition demo_fs :: node where
  "demo_fs =
     Dir [(''r'', Dir
            [(''deps'', Dir
               [(''moltenvk'', Dir
                  [(''include'', Dir [(''MoltenVK'', Dir [])]),
                   (''lib'', Dir [(''libMoltenVK.dylib'', File (Text ''dylib''))])]),
                (''docs'', Dir [(''include'', Dir [(''readme.h'', File (Text ''''))])])]),
             (''source'', Dir
               [(''gzdoom'', Dir
                  [(''CMakeLists.txt'',
                    File (Text (''cmake_minimum_required( VERSION 3.1.0 )'' @ [CHR 0x0A]
                                @ ''project(GZDoom)'' @ [CHR 0x0A])))])]),
             (''out'', Dir
               [(''gzdoom.app'', Dir
                  [(''Contents'', Dir
                     [(''MacOS'', Dir [(''gzdoom'', File (Text ''binary''))])])])])]),
          (''tmp'', Dir
            [(''mysrc'', Dir
               [(''CMakeLists.txt'',
                 File (Text (''cmake_minimum_required( VERSION 3.1.0 )'' @ [CHR 0x0A]
                             @ ''project(Raze)'' @ [CHR 0x0A])))]),
             (''spaced'', Dir
               [(''CMakeLists.txt'',
                 File (Text (''# build description'' @ [CHR 0x0A]
                             @ ''  PROJECT ( QZDoom ) # fork'' @ [CHR 0x0A]
                             @ ''project(Raze)'' @ [CHR 0x0A])))]),
             (''empty'', Dir
               [(''CMakeLists.txt'', File (Text (''add_subdirectory(src)'' @ [CHR 0x0A])))]),
             (''other'', Dir
               [(''CMakeLists.txt'', File (Text (''project(PrBoom)'' @ [CHR 0x0A])))])])]"

definition demo_world :: world where
  "demo_world = \<lparr>fs = demo_fs, cwd = [''r''], environ = [(''PATH'', ''/usr/bin'')], trace = []\<rparr>"

definition demo_host :: host where
  "demo_host =
     \<lparr>exec = (\<lambda>args dir env r. Some (0, ''4'' @ [CHR 0x0A], r)),
      st_owner = (\<lambda>s. (501, 20)),
      pw_name = (\<lambda>uid. ''alice''),
      gr_name = (\<lambda>gid. ''staff'')\<rparr>"

definition demo_args :: arguments where
  "demo_args =
     \<lparr>arg_target = Some ''gzdoom'', arg_source_path = None, arg_xcode = False,
      arg_checkout_commit = None, arg_build_path = None, arg_sdk_path = None,
      arg_skip_generate = False, arg_create_package = False, arg_rebuild_prefix = False\<rparr>"

text \<open>The builder the constructor makes from given arguments in this installation.\<close>

definition demo_builder :: "arguments \<Rightarrow> builder" where
  "demo_builder a = projr (Builder demo_world ''/r'' a)"

definition xcode_args :: arguments where
  "xcode_args = demo_args\<lparr>arg_xcode := True, arg_create_package := True\<rparr>"

definition source_args :: arguments where
  "source_args =
     demo_args\<lparr>arg_target := None, arg_source_path := Some ''/tmp/mysrc'',
               arg_build_path := Some ''/r/out/''\<rparr>"

definition nowhere_args :: arguments where
  "nowhere_args = demo_args\<lparr>arg_target := None, arg_source_path := Some ''/tmp/nowhere''\<rparr>"

definition package_args :: arguments where
  "package_args = demo_args\<lparr>arg_build_path := Some ''out'', arg_create_package := True\<rparr>"

definition absolute_package_args :: arguments where
  "absolute_package_args =
     demo_args\<lparr>arg_build_path := Some ''/r/out'', arg_create_package := True\<rparr>"



text \<open>
  The installation after prefix preparation, and after a complete run in IDE-project
  mode.
\<close>

definition prepared_world :: world where
  "prepared_world = projr (create_prefix_directory (demo_builder demo_args) demo_world)"

definition xcode_world :: world where
  "xcode_world = projr (run demo_host (demo_builder xcode_args) demo_world)"

text \<open>
  The same installation without the dependency \<^verbatim>\<open>moltenvk\<close>, so that prefix preparation
  puts no \<^verbatim>\<open>libMoltenVK.dylib\<close> into the prefix, and what a complete run in IDE-project
  mode makes of it.
\<close>

definition bare_world :: world where
  "bare_world = demo_world\<lparr>fs := unlink demo_fs [''r'', ''deps'', ''moltenvk'']\<rparr>"

definition bare_xcode_world :: world where
  "bare_xcode_world = projr (run demo_host (demo_builder xcode_args) bare_world)"




section \<open>Growth of the file system\<close>

text \<open>
  Two relations used to state what making directories and links preserves. A file system
  extends another when every place of the first holds an object of the same kind in the
  second; a world grows when its file system is extended and the working directory
  stays.
\<close>

definition extends :: "node \<Rightarrow> node \<Rightarrow> bool" where
  "extends r r' = (\<forall>p k. kind_at r p = Some k \<longrightarrow> kind_at r' p = Some k)"

definition grows :: "world \<Rightarrow> world \<Rightarrow> bool" where
  "grows w w' = (cwd w' = cwd w \<and> extends (fs w) (fs w'))"

text \<open>
  \<open>inside p q\<close>: the place \<open>q\<close> is \<open>p\<close> or lies below it. A world changes only inside \<open>p\<close>
  when every place outside holds what it held before.
\<close>

definition inside :: "string list \<Rightarrow> string list \<Rightarrow> bool" where
  "inside p q = (take (length p) q = p)"




section \<open>Facts about the registry\<close>

lemma get_target_names_eq:
  "get_target_names = [''gzdoom'', ''lzdoom'', ''qzdoom'', ''raze'']"
  by (simp add: get_target_names_def dir_Target_def SETUP_PREFIX_def startswith_def)

lemma option_keys:
  "cmake_options t = [] \<Longrightarrow>
   map fst (cmake_options (assign_zdoom_raze_cmake_options t b)) =
     [''CMAKE_EXE_LINKER_FLAGS'', ''FORCE_INTERNAL_ZLIB'', ''FORCE_INTERNAL_BZIP2'',
      ''PK3_QUIET_ZIPDIR'', ''DYN_OPENAL'', ''OPENAL_INCLUDE_DIR'', ''OPENAL_LIBRARY'']"
  by (simp add: assign_zdoom_raze_cmake_options_def)

lemma target_setup_registered:
  assumes "n \<in> set get_target_names"
  shows "\<exists>t0. name t0 = n \<and> url t0 \<noteq> None \<and> cmake_options t0 = []
          \<and> target_setup (Target n) b = Inr (assign_zdoom_raze_cmake_options t0 b)"
proof -
  from assms consider "n = ''gzdoom''" | "n = ''lzdoom''" | "n = ''qzdoom''" | "n = ''raze''"
    by (auto simp: get_target_names_eq)
  then show ?thesis
  proof cases
    case 1
    show ?thesis
      by (rule exI [of _ "(Target n)\<lparr>url := Some ''https://github.com/coelckers/gzdoom.git'',
                                     post_build := Some Copy_moltenvk\<rparr>"])
         (simp add: 1 target_setup_def getattr_Target_def SETUP_PREFIX_def Target_def
            setup_gzdoom_def)
  next
    case 2
    show ?thesis
      by (rule exI [of _ "(Target n)\<lparr>url := Some ''https://github.com/drfrag666/gzdoom.git''\<rparr>"])
         (simp add: 2 target_setup_def getattr_Target_def SETUP_PREFIX_def Target_def
            setup_lzdoom_def)
  next
    case 3
    show ?thesis
      by (rule exI [of _ "(Target n)\<lparr>url := Some ''https://github.com/madame-rachelle/qzdoom.git'',
                                     post_build := Some Copy_moltenvk\<rparr>"])
         (simp add: 3 target_setup_def getattr_Target_def SETUP_PREFIX_def Target_def
            setup_qzdoom_def)
  next
    case 4
    show ?thesis
      by (rule exI [of _ "(Target n)\<lparr>url := Some ''https://github.com/coelckers/Raze.git''\<rparr>"])
         (simp add: 4 target_setup_def getattr_Target_def SETUP_PREFIX_def Target_def
            setup_raze_def)
  qed
qed

lemma map_of_create_targets:
  "map_of create_targets n = (if n \<in> set get_target_names then Some (Target n) else None)"
  by (simp add: create_targets_def map_of_map_restrict restrict_map_def)

section \<open>Facts about the project-declaration pattern\<close>

lemma lower_of_lower: "map lower_char ''project'' = ''project''"
  by (simp add: lower_char_def ascii_uppercase_def ascii_lowercase_def)

lemma match_literal_ci_append:
  "map lower_char P = map lower_char pat \<Longrightarrow> match_literal_ci pat (P @ s) = Some s"
proof (induction pat arbitrary: P)
  case Nil
  then show ?case by simp
next
  case (Cons p ps)
  then obtain c cs where "P = c # cs" by (cases P) auto
  with Cons show ?case by simp
qed

lemma space_not_word: "is_space c \<Longrightarrow> \<not> is_word c"
  by (auto simp: is_space_def is_word_def ascii_lowercase_def ascii_uppercase_def digits_def)

lemma paren_classes:
  "\<not> is_space (CHR ''('')" "\<not> is_space (CHR '')'')" "\<not> is_word (CHR '')'')"
  by (simp_all add: is_space_def is_word_def ascii_lowercase_def ascii_uppercase_def digits_def)

lemma is_word_lower: "is_word (lower_char c) \<Longrightarrow> is_word c"
  unfolding lower_char_def
  apply (cases "map_of (zip ascii_uppercase ascii_lowercase) c")
   apply simp
  apply (drule map_of_SomeD)
  apply (drule set_zip_leftD)
  apply (simp add: is_word_def)
  done

lemma space_not_p: "is_space c \<Longrightarrow> lower_char c \<noteq> CHR ''p''"
  by (auto simp: is_space_def lower_char_def ascii_uppercase_def ascii_lowercase_def)

lemma match_project_declaration:
  assumes P: "str_lower P = ''project''"
    and ws: "\<forall>c \<in> set (ws1 @ ws2 @ ws3). is_space c"
    and nm: "Name \<noteq> []" "\<forall>c \<in> set Name. is_word c"
  shows "match_project (P @ ws1 @ ''('' @ ws2 @ Name @ ws3 @ '')'' @ rest) = Some Name"
proof -
  have lit: "match_literal_ci ''project'' (P @ ws1 @ ''('' @ ws2 @ Name @ ws3 @ '')'' @ rest)
               = Some (ws1 @ ''('' @ ws2 @ Name @ ws3 @ '')'' @ rest)"
  proof (rule match_literal_ci_append)
    show "map lower_char P = map lower_char ''project''"
      using P unfolding lower_of_lower str_lower_def .
  qed
  have d1: "dropWhile is_space (ws1 @ ''('' @ ws2 @ Name @ ws3 @ '')'' @ rest)
              = CHR ''('' # ws2 @ Name @ ws3 @ '')'' @ rest"
    using ws by (simp add: dropWhile_append2 paren_classes)
  obtain n ns where Name: "Name = n # ns" using nm(1) by (cases Name) auto
  with nm(2) have n: "is_word n" by simp
  then have "\<not> is_space n" using space_not_word by blast
  then have d2: "dropWhile is_space (ws2 @ Name @ ws3 @ '')'' @ rest) = Name @ ws3 @ '')'' @ rest"
    using ws by (simp add: dropWhile_append2 Name)
  have stop: "takeWhile is_word (ws3 @ '')'' @ rest) = []"
    using ws by (cases ws3) (auto simp: space_not_word paren_classes)
  have t: "takeWhile is_word (Name @ ws3 @ '')'' @ rest) = Name"
    using nm(2) stop by (simp add: takeWhile_append2)
  have stop': "dropWhile is_word (ws3 @ '')'' @ rest) = ws3 @ '')'' @ rest"
    using ws by (cases ws3) (auto simp: space_not_word paren_classes)
  have d3: "dropWhile is_word (Name @ ws3 @ '')'' @ rest) = ws3 @ '')'' @ rest"
    using nm(2) stop' by (simp add: dropWhile_append2)
  have d4: "dropWhile is_space (ws3 @ '')'' @ rest) = CHR '')'' # rest"
    using ws by (simp add: dropWhile_append2 paren_classes)
  show ?thesis
    unfolding match_project_def lit
    by (simp add: d1 d2 t d3 d4 nm(1) del: append_Cons) 
qed

lemma lower_p: "lower_char (CHR ''p'') = CHR ''p''"
  by (simp add: lower_char_def ascii_uppercase_def ascii_lowercase_def)

lemma match_project_space: "is_space c \<Longrightarrow> match_project (c # s) = None"
  by (simp add: match_project_def space_not_p lower_p)

lemma re_search_here: "match_project s = Some g \<Longrightarrow> re_search_project s = Some g"
  by (cases s) simp_all

lemma re_search_leading_spaces:
  "\<forall>c \<in> set ws0. is_space c \<Longrightarrow> match_project s = Some g \<Longrightarrow>
     re_search_project (ws0 @ s) = Some g"
  by (induction ws0) (simp_all add: re_search_here match_project_space)

lemma scan_first_match:
  "\<forall>l \<in> set before. re_search_project l = None \<Longrightarrow> re_search_project line = Some g \<Longrightarrow>
     scan_project_name (before @ line # rest) = Some (str_lower g)"
  by (induction before) simp_all

lemma match_project_nonempty: "match_project s = Some g \<Longrightarrow> g \<noteq> []"
  by (auto simp: match_project_def Let_def split: option.splits list.splits if_splits)

lemma re_search_nonempty: "re_search_project s = Some g \<Longrightarrow> g \<noteq> []"
  by (induction s) (auto simp: match_project_nonempty split: option.splits)

lemma scan_nonempty: "scan_project_name ls = Some n \<Longrightarrow> n \<noteq> []"
  by (induction ls) (auto simp: str_lower_def dest: re_search_nonempty split: option.splits)

section \<open>Facts about detection\<close>

lemma registered_name_word:
  assumes "N \<in> set get_target_names" and "str_lower Name = N"
  shows "Name \<noteq> [] \<and> (\<forall>c \<in> set Name. is_word c)"
proof -
  have w: "\<forall>c \<in> set N. is_word c" and ne: "N \<noteq> []"
    using assms(1)
    by (auto simp: get_target_names_eq is_word_def ascii_lowercase_def)
  from ne assms(2) have "Name \<noteq> []" by (auto simp: str_lower_def)
  moreover have "is_word c" if "c \<in> set Name" for c
  proof -
    from that assms(2) have "lower_char c \<in> set N" by (auto simp: str_lower_def)
    with w show ?thesis by (blast intro: is_word_lower)
  qed
  ultimately show ?thesis by blast
qed

lemma Builder_detected:
  assumes "truthy (arg_target a) = None" and "truthy (arg_source_path a) = Some src"
    and "detect_target w src create_targets = Inr (Target N)"
    and "N \<in> set get_target_names"
  shows "\<exists>b. Builder w script_dir a = Inr b \<and> name (target b) = N \<and> source_path b = src @ os_sep"
proof -
  have sel: "select_target w (script_dir @ os_sep) a = Inr (Target N, src)"
    using assms(1-3) by (simp add: select_target_def)
  have "\<exists>t. target_setup (Target N) b0 = Inr t \<and> name t = N" for b0
    using target_setup_registered [OF assms(4), of b0]
    by (auto simp: assign_zdoom_raze_cmake_options_def)
  then show ?thesis
    unfolding Builder_def Let_def sel
    by (auto split: sum.splits) (metis Inl_Inr_False sum.inject(2))+
qed

section \<open>Facts about the file system\<close>

lemma kind_at_Nil [simp]: "kind_at r [] = Some (kind_of r)"
  by (simp add: kind_at_def)

lemma kind_at_Cons:
  "kind_at r (c # cs) =
     (case r of Dir es \<Rightarrow> (case map_of es c of None \<Rightarrow> None | Some m \<Rightarrow> kind_at m cs)
              | File d \<Rightarrow> None | Link t \<Rightarrow> None)"
  by (cases r) (auto simp: kind_at_def split: option.splits)

lemma kind_at_parent:
  "kind_at r (p @ [c]) = Some k \<Longrightarrow> kind_at r p = Some KDir"
proof (induction p arbitrary: r)
  case Nil
  then show ?case by (cases r) (auto simp: kind_at_Cons)
next
  case (Cons a p)
  then show ?case by (cases r) (auto simp: kind_at_Cons split: option.splits)
qed

lemma kind_at_root: "kind_at r (p @ [c]) = Some k \<Longrightarrow> kind_at r [] = Some KDir"
  by (cases p; cases r) (auto simp: kind_at_Cons)

lemma kind_at_butlast:
  "kind_at r p = Some KDir \<Longrightarrow> kind_at r (butlast p) = Some KDir"
  by (cases p rule: rev_cases) (auto dest: kind_at_parent)

text \<open>A new entry leaves everything that exists as it is.\<close>

lemma kind_at_put_other:
  "kind_at r p = None \<Longrightarrow> kind_at r q = Some k \<Longrightarrow> kind_at (put r p n) q = Some k"
proof (induction r p n arbitrary: q rule: put.induct)
  case (1 old n)
  then show ?case by simp
next
  case (2 es c cs n)
  show ?case
  proof (cases q)
    case Nil
    with "2.prems" show ?thesis by (auto split: option.splits)
  next
    case (Cons d ds)
    show ?thesis
    proof (cases "map_of es c")
      case None
      with "2.prems" Cons show ?thesis
        by (auto simp: kind_at_Cons split: option.splits)
    next
      case (Some m)
      with "2.prems" have m: "kind_at m cs = None" by (simp add: kind_at_Cons)
      show ?thesis
      proof (cases "d = c")
        case True
        with "2.prems" Cons Some have "kind_at m ds = Some k" by (simp add: kind_at_Cons)
        from "2.IH" [OF Some m this] Some Cons True show ?thesis
          by (simp add: kind_at_Cons update_conv')
      next
        case False
        with "2.prems" Cons Some show ?thesis
          by (auto simp: kind_at_Cons update_conv' split: option.splits)
      qed
    qed
  qed
next
  case (3 d c cs n)
  then show ?case by simp
next
  case (4 t c cs n)
  then show ?case by simp
qed


subsection \<open>Resolution in a file system that has grown\<close>

lemma extends_refl: "extends r r"
  by (simp add: extends_def)

lemma extends_trans: "extends r r' \<Longrightarrow> extends r' r'' \<Longrightarrow> extends r r''"
  by (simp add: extends_def)

lemma extends_put: "kind_at r p = None \<Longrightarrow> extends r (put r p n)"
  by (simp add: extends_def kind_at_put_other)

lemma walk_extends:
  "extends r r' \<Longrightarrow> walk r fuel here cs = Found p \<Longrightarrow> walk r' fuel here cs = Found p"
proof (induction r fuel here cs rule: walk.induct)
  case (1 r fuel here)
  then show ?case by simp
next
  case (2 r fuel here c cs)
  show ?case
  proof (cases "c = ''.'' \<or> c = ''..''")
    case True
    with 2 show ?thesis by auto
  next
    case False
    then have c: "c \<noteq> ''.''" "c \<noteq> ''..''" by auto
    show ?thesis
    proof (cases "kind_at r (here @ [c])")
      case None
      with "2.prems" c show ?thesis by (auto split: if_splits)
    next
      case (Some k)
      with "2.prems"(1) have k': "kind_at r' (here @ [c]) = Some k" by (simp add: extends_def)
      show ?thesis
      proof (cases k)
        case KFile
        with Some k' "2.prems" c show ?thesis by (auto split: if_splits)
      next
        case KDir
        with Some k' "2.prems" c "2.IH"(4) show ?thesis by auto
      next
        case (KLink t)
        show ?thesis
        proof (cases fuel)
          case 0
          with KLink Some "2.prems" c show ?thesis by auto
        next
          case (Suc n)
          with KLink Some k' "2.prems" c "2.IH"(3) show ?thesis by auto
        qed
      qed
    qed
  qed
qed


text \<open>
  A path that resolves passes through directories only: what comes before a later
  component resolves to a directory, from which the rest resolves.
\<close>

lemma walk_append:
  "walk r fuel here (cs @ ds) = Found q \<Longrightarrow> kind_at r here = Some KDir \<Longrightarrow> ds \<noteq> [] \<Longrightarrow>
     \<exists>p fuel'. walk r fuel here cs = Found p \<and> kind_at r p = Some KDir \<and>
               walk r fuel' p ds = Found q"
proof (induction r fuel here "cs @ ds" arbitrary: cs rule: walk.induct)
  case (1 r fuel here)
  then show ?case by simp
next
  case (2 r fuel here c rest)
  show ?case
  proof (cases cs)
    case Nil
    with "2.prems" show ?thesis by auto
  next
    case (Cons c' cs')
    with "2.hyps"(5) have eq: "c' = c" "rest = cs' @ ds" by auto
    show ?thesis
    proof (cases "c = ''.''")
      case True
      from "2.hyps"(1) [OF True eq(2)] "2.prems" True eq Cons show ?thesis by auto
    next
      case dot: False
      show ?thesis
      proof (cases "c = ''..''")
        case True
        from "2.prems"(2) have "kind_at r (butlast here) = Some KDir" by (rule kind_at_butlast)
        from "2.hyps"(2) [OF dot True eq(2)] this "2.prems" True dot eq Cons show ?thesis by auto
      next
        case dotdot: False
        show ?thesis
        proof (cases "kind_at r (here @ [c])")
          case None
          with "2.prems" dot dotdot eq Cons show ?thesis by (auto split: if_splits)
        next
          case (Some k)
          show ?thesis
          proof (cases k)
            case KFile
            with Some "2.prems" dot dotdot eq Cons show ?thesis by (auto split: if_splits)
          next
            case KDir
            from "2.hyps"(4) [OF dot dotdot Some KDir eq(2)] Some KDir "2.prems" dot dotdot eq Cons
            show ?thesis by auto
          next
            case (KLink t)
            show ?thesis
            proof (cases fuel)
              case 0
              with KLink Some "2.prems" dot dotdot eq Cons show ?thesis by auto
            next
              case (Suc n)
              have start: "kind_at r (if is_abs t then [] else here) = Some KDir"
                using "2.prems"(2) kind_at_root [OF Some] by simp
              have "split_path t @ rest = (split_path t @ cs') @ ds" using eq by simp
              from "2.hyps"(3) [OF dot dotdot Some KLink Suc this] start
                   KLink Some Suc "2.prems" dot dotdot eq Cons
              show ?thesis by auto
            qed
          qed
        qed
      qed
    qed
  qed
qed

subsection \<open>Worlds that have grown\<close>

lemma grows_refl: "grows w w"
  by (simp add: grows_def extends_refl)

lemma grows_trans: "grows w w' \<Longrightarrow> grows w' w'' \<Longrightarrow> grows w w''"
  by (auto simp: grows_def intro: extends_trans)

lemma start_dir_grows: "grows w w' \<Longrightarrow> start_dir w s = Some h \<Longrightarrow> start_dir w' s = Some h"
  by (auto simp: start_dir_def grows_def extends_def simp del: kind_at_Nil split: if_splits)

lemma start_dir_is_dir: "start_dir w s = Some h \<Longrightarrow> kind_at (fs w) h = Some KDir"
  by (auto simp: start_dir_def split: if_splits)

lemma os_path_exists_grows:
  assumes "grows w w'" and "os_path_exists w s"
  shows "os_path_exists w' s"
proof -
  from assms(2) obtain h p k where
    h: "start_dir w s = Some h" and p: "walk (fs w) max_links h (split_path s) = Found p"
    and k: "kind_at (fs w) p = Some k" and d: "\<not> (ends_with_sep s \<and> k \<noteq> KDir)"
    by (auto simp: os_path_exists_def os_stat_def
             split: option.splits resolution.splits sum.splits if_splits)
  from assms(1) have e: "extends (fs w) (fs w')" by (simp add: grows_def)
  from walk_extends [OF e p] start_dir_grows [OF assms(1) h] k e d
  show ?thesis by (auto simp: os_path_exists_def os_stat_def extends_def)
qed

lemma entry_at_Missing:
  "entry_at w h cs = Missing p \<Longrightarrow>
     kind_at (fs w) p = None \<and> cs \<noteq> [] \<and>
     (\<exists>d. walk (fs w) max_links h (butlast cs) = Found d \<and> kind_at (fs w) d = Some KDir
          \<and> p = d @ [last cs])"
  by (auto simp: entry_at_def split: if_splits resolution.splits option.splits)

lemma create_at_grows: "create_at w h cs n ev = Inr w' \<Longrightarrow> grows w w'"
  by (auto simp: create_at_def grows_def split: resolution.splits
           dest!: entry_at_Missing intro: extends_put)

lemma create_at_parent:
  assumes "create_at w h (cs @ [c]) n ev = Inr w'"
  shows "\<exists>d. walk (fs w') max_links h cs = Found d \<and> kind_at (fs w') d = Some KDir"
proof -
  from assms obtain p where p: "entry_at w h (cs @ [c]) = Missing p"
    by (auto simp: create_at_def split: resolution.splits)
  from entry_at_Missing [OF p] obtain d where
    d: "walk (fs w) max_links h cs = Found d" "kind_at (fs w) d = Some KDir"
    by auto
  from create_at_grows [OF assms] have e: "extends (fs w) (fs w')" by (simp add: grows_def)
  from walk_extends [OF e d(1)] d(2) e show ?thesis by (auto simp: extends_def)
qed

lemma mkdir_leaf_grows: "grows w (fst (mkdir_leaf w h ok cs))"
  by (auto simp: mkdir_leaf_def grows_refl split: sum.splits dest: create_at_grows)

lemma makedirs_rev_grows: "grows w (fst (makedirs_rev w h ab ok rcs))"
proof (induction rcs arbitrary: w)
  case Nil
  then show ?case by (simp add: mkdir_leaf_grows)
next
  case (Cons c rcs)
  have step: "grows w (fst (mkdir_leaf w1 h ok cs))" if "grows w w1" for w1 cs
    using that mkdir_leaf_grows [of w1 h ok cs] by (blast intro: grows_trans)
  from Cons [of w] show ?case
    by (auto simp: mkdir_leaf_grows step split: prod.splits option.splits)
qed

lemma os_makedirs_grows:
  assumes "os_makedirs s ok w = Inr w'"
  shows "grows w w'"
proof -
  from assms obtain h where
    "makedirs_rev w h (is_abs s) ok (rev (split_path s)) = (w', None)"
    by (auto simp: os_makedirs_def split: option.splits prod.splits)
  with makedirs_rev_grows [of w h "is_abs s" ok "rev (split_path s)"] show ?thesis by simp
qed

lemma os_symlink_grows: "os_symlink src dst w = Inr w' \<Longrightarrow> grows w w'"
  by (auto simp: os_symlink_def split: option.splits dest: create_at_grows)

lemma symlink_entries_grows: "symlink_entries s d es w = Inr w' \<Longrightarrow> grows w w'"
proof (induction es arbitrary: w)
  case Nil
  then show ?case by (simp add: grows_refl)
next
  case (Cons e es)
  then show ?case
    by (auto split: sum.splits dest!: os_symlink_grows intro: grows_trans)
qed

lemma link_dependency_grows: "link_dependency b dep w = Inr w' \<Longrightarrow> grows w w'"
  by (auto simp: link_dependency_def Let_def grows_refl split: if_splits sum.splits
           dest!: symlink_entries_grows intro: grows_trans)

lemma link_dependencies_grows: "link_dependencies b deps w = Inr w' \<Longrightarrow> grows w w'"
proof (induction deps arbitrary: w)
  case Nil
  then show ?case by (simp add: grows_refl)
next
  case (Cons d ds)
  then show ?case
    by (auto split: sum.splits dest!: link_dependency_grows intro: grows_trans)
qed

subsection \<open>Path names built by concatenation\<close>

lemma split_at_sep_append:
  "split_at_sep acc (a @ CHR ''/'' # b) = split_at_sep acc a @ split_at_sep [] b"
  by (induction a arbitrary: acc) auto

lemma split_path_append: "split_path (a @ CHR ''/'' # b) = split_path a @ split_path b"
  by (simp add: split_path_def split_at_sep_append)

lemma is_abs_append: "s \<noteq> [] \<Longrightarrow> is_abs (s @ t) = is_abs s"
  by (cases s) (auto simp: is_abs_def startswith_def os_sep_def)

lemma start_dir_append: "s \<noteq> [] \<Longrightarrow> start_dir w (s @ t) = start_dir w s"
  by (simp add: start_dir_def is_abs_append)

subsection \<open>Making directories\<close>

lemma makedirs_rev_parent:
  assumes "makedirs_rev w h ab False (c # rcs) = (w', None)" and "c \<noteq> ''.''"
  shows "\<exists>d. walk (fs w') max_links h (rev rcs) = Found d \<and> kind_at (fs w') d = Some KDir"
proof -
  from assms obtain w1 where "mkdir_leaf w1 h False (rev rcs @ [c]) = (w', None)"
    by (auto split: if_splits prod.splits option.splits)
  then have "create_at w1 h (rev rcs @ [c]) (Dir []) Mkdir = Inr w'"
    by (auto simp: mkdir_leaf_def split: sum.splits)
  then show ?thesis by (rule create_at_parent)
qed

lemma walk_last_entry:
  assumes "walk r fuel p [c] = Found q" and "c \<noteq> ''.''" and "c \<noteq> ''..''"
  shows "kind_at r (p @ [c]) \<noteq> None"
  using assms by (cases "kind_at r (p @ [c])") auto

lemma makedirs_rev_existing:
  assumes found: "walk (fs w) max_links h (cs @ [c]) = Found p"
    and dir: "kind_at (fs w) p = Some KDir"
    and h: "kind_at (fs w) h = Some KDir"
    and c: "c \<noteq> ''.''" "c \<noteq> ''..''"
  shows "makedirs_rev w h ab True (c # rev cs) = (w, None)"
proof -
  from walk_append [OF found h] obtain d fuel' where
    d: "walk (fs w) max_links h cs = Found d" "kind_at (fs w) d = Some KDir"
       "walk (fs w) fuel' d [c] = Found p"
    by auto
  from walk_last_entry [OF d(3) c] obtain k where k: "kind_at (fs w) (d @ [c]) = Some k"
    by auto
  have head: "exists_at w h cs" using d by (simp add: exists_at_def)
  have "entry_at w h (cs @ [c]) = Found (d @ [c])"
    using d k c by (simp add: entry_at_def)
  then have "create_at w h (cs @ [c]) (Dir []) Mkdir = Inl FileExistsError"
    by (simp add: create_at_def)
  moreover have "isdir_at w h (cs @ [c])"
    using found dir by (simp add: isdir_at_def)
  ultimately have "mkdir_leaf w h True (cs @ [c]) = (w, None)"
    by (simp add: mkdir_leaf_def)
  with head show ?thesis by simp
qed

lemma os_path_exists_walk:
  assumes "os_path_exists w s"
  obtains h q k where "start_dir w s = Some h" "walk (fs w) max_links h (split_path s) = Found q"
    "kind_at (fs w) q = Some k"
  using assms
  by (auto simp: os_path_exists_def os_stat_def
           split: option.splits resolution.splits sum.splits if_splits)

lemma os_path_exists_dir:
  assumes "start_dir w s = Some h" "walk (fs w) max_links h (split_path s) = Found q"
    "kind_at (fs w) q = Some KDir"
  shows "os_path_exists w s"
  using assms by (simp add: os_path_exists_def os_stat_def)

lemma os_makedirs_existing:
  assumes "os_path_exists w (a @ CHR ''/'' # c @ CHR ''/'' # leaf)"
    and c: "split_path c = [c]" "c \<noteq> ''.''" "c \<noteq> ''..''"
    and leaf: "split_path leaf \<noteq> []"
  shows "os_makedirs (a @ CHR ''/'' # c @ ''/'') True w = Inr w"
proof -
  let ?dir = "a @ CHR ''/'' # c @ ''/''"
  have full: "a @ CHR ''/'' # c @ CHR ''/'' # leaf = ?dir @ leaf" by simp
  have cs: "split_path ?dir = split_path a @ [c]"
    using c(1) by (simp add: split_path_append) (simp add: split_path_def)
  have cs': "split_path (a @ CHR ''/'' # c @ CHR ''/'' # leaf) = (split_path a @ [c]) @ split_path leaf"
    using c(1) by (simp add: split_path_append)
  from assms(1) obtain h q k where
    h: "start_dir w (?dir @ leaf) = Some h"
    and q: "walk (fs w) max_links h ((split_path a @ [c]) @ split_path leaf) = Found q"
    unfolding full [symmetric] cs' [symmetric] by (rule os_path_exists_walk) (simp add: cs')
  have "start_dir w (?dir @ leaf) = start_dir w ?dir" by (rule start_dir_append) simp
  with h have h': "start_dir w ?dir = Some h" by simp
  from walk_append [OF q start_dir_is_dir [OF h'] leaf] obtain p where
    p: "walk (fs w) max_links h (split_path a @ [c]) = Found p" "kind_at (fs w) p = Some KDir"
    by auto
  from makedirs_rev_existing [OF p start_dir_is_dir [OF h'] c(2,3)]
  have "makedirs_rev w h (is_abs ?dir) True (rev (split_path ?dir)) = (w, None)"
    by (simp add: cs)
  with h' show ?thesis by (simp add: os_makedirs_def)
qed

lemma Builder_paths:
  assumes "Builder w0 script_dir a = Inr b"
  shows "prefix_path b = script_dir @ CHR ''/'' # ''prefix'' @ ''/''"
    and "include_path b = script_dir @ CHR ''/'' # ''prefix'' @ CHR ''/'' # ''include'' @ ''/''"
  using assms
  by (auto simp: Builder_def Let_def os_sep_def split: sum.splits)

lemma os_makedirs_parent:
  assumes "os_makedirs (a @ CHR ''/'' # c @ ''/'') False w = Inr w'"
    and c: "split_path c = [c]" "c \<noteq> ''.''"
    and a: "a \<noteq> []"
  shows "os_path_exists w' (a @ ''/'')"
proof -
  let ?dir = "a @ CHR ''/'' # c @ ''/''"
  have cs: "split_path ?dir = split_path a @ [c]"
    using c(1) by (simp add: split_path_append) (simp add: split_path_def)
  have cs': "split_path (a @ ''/'') = split_path a"
    by (simp add: split_path_append) (simp add: split_path_def)
  from assms(1) obtain h where
    h: "start_dir w ?dir = Some h"
    and m: "makedirs_rev w h (is_abs ?dir) False (c # rev (split_path a)) = (w', None)"
    by (auto simp: os_makedirs_def cs split: option.splits prod.splits)
  from makedirs_rev_parent [OF m c(2)] obtain d where
    d: "walk (fs w') max_links h (split_path a) = Found d" "kind_at (fs w') d = Some KDir"
    by auto
  have "start_dir w (a @ (CHR ''/'' # c @ ''/'')) = start_dir w a" using a by (rule start_dir_append)
  moreover have "start_dir w (a @ ''/'') = start_dir w a" using a by (rule start_dir_append)
  ultimately have "start_dir w (a @ ''/'') = Some h" using h by simp
  from start_dir_grows [OF os_makedirs_grows [OF assms(1)] this]
  have "start_dir w' (a @ ''/'') = Some h" .
  then show ?thesis using d by (intro os_path_exists_dir) (simp_all add: cs')
qed

text \<open>
  Where the destination of the runtime library resolves, the post-build hook changes
  nothing: the directories above it exist, which \<^verbatim>\<open>makedirs\<close> with \<^verbatim>\<open>exist_ok\<close> accepts, and
  neither a copy nor a link is made.
\<close>

lemma copy_moltenvk_present:
  assumes "os_path_exists w
             (build_path b @ (if xcode b then ''Debug'' @ os_sep else [])
                @ name (target b) @ ''.app/Contents/MacOS'' @ os_sep @ ''libMoltenVK.dylib'')"
  shows "copy_moltenvk b w = Inr w"
proof -
  define a where
    "a = build_path b @ (if xcode b then ''Debug'' @ os_sep else [])
           @ name (target b) @ ''.app/Contents''"
  have dst_path:
    "build_path b @ (if xcode b then ''Debug'' @ os_sep else [])
       @ name (target b) @ ''.app/Contents/MacOS'' @ os_sep @ ''libMoltenVK.dylib''
     = a @ CHR ''/'' # ''MacOS'' @ CHR ''/'' # ''libMoltenVK.dylib''"
    by (simp add: a_def os_sep_def)
  have dst_dir:
    "build_path b @ (if xcode b then ''Debug'' @ os_sep else [])
       @ name (target b) @ ''.app/Contents/MacOS'' @ os_sep
     = a @ CHR ''/'' # ''MacOS'' @ ''/''"
    by (simp add: a_def os_sep_def)
  have made: "os_makedirs (a @ CHR ''/'' # ''MacOS'' @ ''/'') True w = Inr w"
    using assms unfolding dst_path
    by (rule os_makedirs_existing) (simp_all add: split_path_def)
  have there: "os_path_exists w ((a @ CHR ''/'' # ''MacOS'' @ ''/'') @ ''libMoltenVK.dylib'')"
    using assms unfolding dst_path by simp
  show ?thesis
    unfolding copy_moltenvk_def Let_def dst_dir
    using made there by simp
qed

section \<open>Facts about packaging\<close>

text \<open>Whatever the files and their owners, every member of a package belongs to root.\<close>

lemma tar_add_owned_by_root:
  "ti \<in> set (tar_add h (tar_filter k) nm arcname n) \<Longrightarrow>
     ti_uname ti = ''root'' \<and> ti_gname ti = ''root'' \<and> ti_uid ti = 0 \<and> ti_gid ti = 0"
proof (induction h "tar_filter k" nm arcname n arbitrary: ti rule: tar_add.induct)
  case (1 h nm arcname n)
  from "1.prems" have
    "ti = tar_filter k (gettarinfo h nm arcname) \<or>
     (\<exists>es f m. n = Dir es \<and> f \<in> set (sort (listdir es)) \<and> map_of es f = Some m \<and>
        ti \<in> set (tar_add h (tar_filter k) (os_path_join nm f) (os_path_join arcname f) m))"
    by (subst (asm) tar_add.simps) (fastforce split: node.splits option.splits)
  then show ?case
  proof
    assume "ti = tar_filter k (gettarinfo h nm arcname)"
    then show ?thesis by (simp add: tar_filter_def)
  next
    assume "\<exists>es f m. n = Dir es \<and> f \<in> set (sort (listdir es)) \<and> map_of es f = Some m \<and>
        ti \<in> set (tar_add h (tar_filter k) (os_path_join nm f) (os_path_join arcname f) m)"
    then obtain es f m where "n = Dir es" "f \<in> set (sort (listdir es))"
      "map_of es f = Some m"
      "ti \<in> set (tar_add h (tar_filter k) (os_path_join nm f) (os_path_join arcname f) m)"
      by blast
    then show ?thesis by (rule "1.hyps")
  qed
qed


lemma tarfile_add_owned_by_root:
  "tarfile_add h (tar_filter k) nm w = Inr members \<Longrightarrow> ti \<in> set members \<Longrightarrow>
     ti_uname ti = ''root'' \<and> ti_gname ti = ''root'' \<and> ti_uid ti = 0 \<and> ti_gid ti = 0"
  by (auto simp: tarfile_add_def split: option.splits resolution.splits
           dest: tar_add_owned_by_root)

lemma package_members_owned_by_root:
  assumes "make_package h b w = Inr w'" and "create_package b" and "\<not> xcode b"
  shows "\<exists>p members w3.
           w' = tarfile_close p members w3 \<and>
           (\<forall>ti \<in> set members.
              ti_uname ti = ''root'' \<and> ti_gname ti = ''root'' \<and> ti_uid ti = 0 \<and> ti_gid ti = 0)"
proof -
  from assms obtain k nm w3 p members where
    m: "tarfile_add h (tar_filter k) nm w3 = Inr members" and w': "w' = tarfile_close p members w3"
    by (auto simp: make_package_def Let_def split: sum.splits if_splits)
  from tarfile_add_owned_by_root [OF m] w' show ?thesis by blast
qed

text \<open>
  With an absolute build path the member names are relative to the build directory: the
  one slash that \<^verbatim>\<open>tarfile\<close> strips is the one that \<^verbatim>\<open>name_pos\<close> allows for.
\<close>

lemma absolute_build_path_member_names:
  "build_path (demo_builder absolute_package_args) = ''/r/out/'' \<and>
   \<not> isl (make_package demo_host (demo_builder absolute_package_args) demo_world) \<and>
   read_file (projr (make_package demo_host (demo_builder absolute_package_args) demo_world))
       ''/r/out/gzdoom-4.tar.bz2'' =
     Inr (TarBz2
       [\<lparr>ti_name = ''gzdoom.app'', ti_uname = ''root'', ti_gname = ''root'',
         ti_uid = 0, ti_gid = 0\<rparr>,
        \<lparr>ti_name = ''gzdoom.app/Contents'', ti_uname = ''root'', ti_gname = ''root'',
         ti_uid = 0, ti_gid = 0\<rparr>,
        \<lparr>ti_name = ''gzdoom.app/Contents/MacOS'', ti_uname = ''root'', ti_gname = ''root'',
         ti_uid = 0, ti_gid = 0\<rparr>,
        \<lparr>ti_name = ''gzdoom.app/Contents/MacOS/gzdoom'', ti_uname = ''root'',
         ti_gname = ''root'', ti_uid = 0, ti_gid = 0\<rparr>])"
  by code_simp

section \<open>Facts about what prefix preparation changes\<close>

subsection \<open>What a new entry leaves alone\<close>

lemma inside_Nil [simp]: "inside [] q"
  by (simp add: inside_def)









subsection \<open>Where directories and links are made\<close>































section \<open>The claims\<close>

subsection \<open>Detection of a registered target\<close>

text \<open>
  Claim C1. Let \<open>N\<close> be a registered target name, and let the first line of
  \<^verbatim>\<open>CMakeLists.txt\<close> that matches the project-declaration pattern declare the project
  \<open>Name\<close> with \<open>lower(Name) = N\<close>: the word \<^verbatim>\<open>project\<close> in any capitalisation, with optional
  white space before it, around the parentheses and around the name. Then detection
  selects the unconfigured target \<open>N\<close> of the registry, and a constructor called with the
  source path alone builds for \<open>N\<close>.
\<close>

theorem detect_registered_project:
  assumes "N \<in> set get_target_names"
    and "str_lower Name = N"
    and "str_lower P = ''project''"
    and "\<forall>c \<in> set (ws0 @ ws1 @ ws2 @ ws3). is_space c"
    and "\<forall>l \<in> set before. re_search_project l = None"
    and "open_readlines w (src @ os_sep @ ''CMakeLists.txt'') =
           Inr (before @ [ws0 @ P @ ws1 @ ''('' @ ws2 @ Name @ ws3 @ '')'' @ rest] @ after)"
  shows "detect_target w src create_targets = Inr (Target N) \<and>
         (truthy (arg_target a) = None \<and> truthy (arg_source_path a) = Some src \<longrightarrow>
            (\<exists>b. Builder w script_dir a = Inr b \<and> name (target b) = N
                 \<and> source_path b = src @ os_sep))"
proof -
  from registered_name_word [OF assms(1,2)]
  have nm: "Name \<noteq> []" "\<forall>c \<in> set Name. is_word c" by blast+
  have "match_project (P @ ws1 @ ''('' @ ws2 @ Name @ ws3 @ '')'' @ rest) = Some Name"
    using assms(3,4) nm by (intro match_project_declaration) auto
  then have "re_search_project (ws0 @ P @ ws1 @ ''('' @ ws2 @ Name @ ws3 @ '')'' @ rest) = Some Name"
    using assms(4) by (intro re_search_leading_spaces) auto
  from scan_first_match [OF assms(5) this, of after]
  have scan: "scan_project_name
                (before @ [ws0 @ P @ ws1 @ ''('' @ ws2 @ Name @ ws3 @ '')'' @ rest] @ after) = Some N"
    using assms(2) by simp
  from scan_nonempty [OF scan] have "N \<noteq> []" .
  then have det: "detect_target w src create_targets = Inr (Target N)"
    using assms(1,6) scan by (simp add: detect_target_def truthy_def map_of_create_targets)
  with Builder_detected [OF _ _ det assms(1)] show ?thesis by blast
qed

theorem detect_registered_project_witness:
  "''qzdoom'' \<in> set get_target_names \<and>
   str_lower ''QZDoom'' = ''qzdoom'' \<and>
   str_lower ''PROJECT'' = ''project'' \<and>
   open_readlines demo_world (''/tmp/spaced'' @ os_sep @ ''CMakeLists.txt'') =
     Inr ([''# build description'' @ [CHR 0x0A]]
          @ [''  '' @ ''PROJECT'' @ '' '' @ ''('' @ '' '' @ ''QZDoom'' @ '' '' @ '')''
               @ ('' # fork'' @ [CHR 0x0A])]
          @ [''project(Raze)'' @ [CHR 0x0A]]) \<and>
   detect_target demo_world ''/tmp/spaced'' create_targets = Inr (Target ''qzdoom'')"
proof -
  have n: "''qzdoom'' \<in> set get_target_names" by (simp add: get_target_names_eq)
  have l: "str_lower ''QZDoom'' = ''qzdoom''" by code_simp
  have p: "str_lower ''PROJECT'' = ''project''" by code_simp
  have s: "\<forall>c \<in> set (''  '' @ '' '' @ '' '' @ '' ''). is_space c" by (simp add: is_space_def)
  have b: "\<forall>l \<in> set [''# build description'' @ [CHR 0x0A]]. re_search_project l = None"
    by code_simp
  have f: "open_readlines demo_world (''/tmp/spaced'' @ os_sep @ ''CMakeLists.txt'') =
     Inr ([''# build description'' @ [CHR 0x0A]]
          @ [''  '' @ ''PROJECT'' @ '' '' @ ''('' @ '' '' @ ''QZDoom'' @ '' '' @ '')''
               @ ('' # fork'' @ [CHR 0x0A])]
          @ [''project(Raze)'' @ [CHR 0x0A]])"
    by code_simp
  from detect_registered_project [OF n l p s b f] n l p f show ?thesis by blast
qed

subsection \<open>Names and ownership of archive members\<close>

text \<open>
  Claim C2. Every member of the archive is owned by root, whoever owns the files. The
  member names are cut at \<^verbatim>\<open>len(build_path) - 1\<close>, which removes the build path only when
  that path starts with exactly one slash. With the relative build path \<^verbatim>\<open>out\<close> the names
  keep a leading slash: the bundle is archived as \<^verbatim>\<open>/gzdoom.app\<close>.
\<close>

theorem relative_build_path_member_names:
  "build_path (demo_builder package_args) = ''out/'' \<and>
   \<not> isl (make_package demo_host (demo_builder package_args) demo_world) \<and>
   read_file (projr (make_package demo_host (demo_builder package_args) demo_world))
       ''out/gzdoom-4.tar.bz2'' =
     Inr (TarBz2
       [\<lparr>ti_name = ''/gzdoom.app'', ti_uname = ''root'', ti_gname = ''root'',
         ti_uid = 0, ti_gid = 0\<rparr>,
        \<lparr>ti_name = ''/gzdoom.app/Contents'', ti_uname = ''root'', ti_gname = ''root'',
         ti_uid = 0, ti_gid = 0\<rparr>,
        \<lparr>ti_name = ''/gzdoom.app/Contents/MacOS'', ti_uname = ''root'', ti_gname = ''root'',
         ti_uid = 0, ti_gid = 0\<rparr>,
        \<lparr>ti_name = ''/gzdoom.app/Contents/MacOS/gzdoom'', ti_uname = ''root'',
         ti_gname = ''root'', ti_uid = 0, ti_gid = 0\<rparr>])"
  by code_simp

theorem relative_build_path_member_names_witness:
  "create_package (demo_builder package_args) \<and> \<not> xcode (demo_builder package_args) \<and>
   \<not> is_abs (build_path (demo_builder package_args)) \<and>
   \<not> isl (make_package demo_host (demo_builder package_args) demo_world)"
proof -
  have c: "create_package (demo_builder package_args)" by code_simp
  have x: "\<not> xcode (demo_builder package_args)" by code_simp
  have r: "\<not> is_abs ''out/''" by code_simp
  from relative_build_path_member_names c x r show ?thesis by simp
qed

subsection \<open>Prefix preparation, twice\<close>

text \<open>
  Claim C3. Without the rebuild-prefix flag, prefix preparation does nothing when the
  prefix directory exists: it returns the world as it is, without error, so nothing is
  removed, no directory is made and no link is created. A successful preparation by a
  builder that the constructor made leaves the prefix directory in existence; running
  it again changes nothing, so only the first of two runs changes the file system.
\<close>

theorem prefix_preparation_idempotent:
  assumes "\<not> rebuild_prefix b"
  shows "(os_path_exists w (prefix_path b) \<longrightarrow> create_prefix_directory b w = Inr w) \<and>
         (\<forall>w0 script_dir a w1.
            Builder w0 script_dir a = Inr b \<and> create_prefix_directory b w = Inr w1 \<longrightarrow>
              os_path_exists w1 (prefix_path b) \<and> create_prefix_directory b w1 = Inr w1)"
proof -
  have skip: "create_prefix_directory b w' = Inr w'" if "os_path_exists w' (prefix_path b)" for w'
    using that assms by (simp add: create_prefix_directory_def)
  have after: "os_path_exists w1 (prefix_path b)"
    if made: "Builder w0 script_dir a = Inr b" and run: "create_prefix_directory b w = Inr w1"
    for w0 script_dir a w1
  proof (cases "os_path_exists w (prefix_path b)")
    case True
    with run skip [OF True] show ?thesis by simp
  next
    case False
    with run obtain w2 w3 deps where
      inc: "os_makedirs (include_path b) False w = Inr w2"
      and lib: "os_makedirs (lib_path b) False w2 = Inr w3"
      and links: "link_dependencies b deps w3 = Inr w1"
      by (auto simp: create_prefix_directory_def split: sum.splits)
    have "os_path_exists w2 ((script_dir @ CHR ''/'' # ''prefix'') @ ''/'')"
    proof (rule os_makedirs_parent)
      show "os_makedirs ((script_dir @ CHR ''/'' # ''prefix'') @ CHR ''/'' # ''include'' @ ''/'')
              False w = Inr w2"
        using inc Builder_paths(2) [OF made] by simp
    qed (simp_all add: split_path_def)
    then have "os_path_exists w2 (prefix_path b)"
      using Builder_paths(1) [OF made] by simp
    moreover have "grows w2 w1"
      using os_makedirs_grows [OF lib] link_dependencies_grows [OF links]
      by (rule grows_trans)
    ultimately show ?thesis by (rule os_path_exists_grows [rotated])
  qed
  from skip after show ?thesis by blast
qed

theorem prefix_preparation_idempotent_witness:
  "\<not> rebuild_prefix (demo_builder demo_args) \<and>
   Builder demo_world ''/r'' demo_args = Inr (demo_builder demo_args) \<and>
   \<not> os_path_exists demo_world (prefix_path (demo_builder demo_args)) \<and>
   create_prefix_directory (demo_builder demo_args) demo_world = Inr prepared_world \<and>
   trace prepared_world \<noteq> trace demo_world \<and>
   os_path_exists prepared_world (prefix_path (demo_builder demo_args)) \<and>
   create_prefix_directory (demo_builder demo_args) prepared_world = Inr prepared_world"
proof -
  have r: "\<not> rebuild_prefix (demo_builder demo_args)" by code_simp
  have "\<not> isl (Builder demo_world ''/r'' demo_args)" by code_simp
  then have b: "Builder demo_world ''/r'' demo_args = Inr (demo_builder demo_args)"
    by (simp add: demo_builder_def)
  have n: "\<not> os_path_exists demo_world (prefix_path (demo_builder demo_args))" by code_simp
  have "\<not> isl (create_prefix_directory (demo_builder demo_args) demo_world)" by code_simp
  then have c: "create_prefix_directory (demo_builder demo_args) demo_world = Inr prepared_world"
    by (simp add: prepared_world_def)
  have t: "trace prepared_world \<noteq> trace demo_world" by code_simp
  from prefix_preparation_idempotent [OF r, of demo_world] b c
  have "os_path_exists prepared_world (prefix_path (demo_builder demo_args)) \<and>
        create_prefix_directory (demo_builder demo_args) prepared_world = Inr prepared_world"
    by blast
  with r b n c t show ?thesis by blast
qed

subsection \<open>Placing the runtime library, again\<close>

text \<open>
  Claim C4. The hook is meant to do nothing when the runtime library is already in the
  executable directory of the application bundle, and where the destination resolves
  to a file it does nothing (lemma \<open>copy_moltenvk_present\<close>). But it tests the destination
  with \<^verbatim>\<open>os.path.exists\<close>, which follows symbolic links, and in IDE-project mode it places
  a link to \<^verbatim>\<open>lib/libMoltenVK.dylib\<close> of the prefix whether that file exists or not. In
  the installation without the dependency \<^verbatim>\<open>moltenvk\<close> the first run succeeds and leaves
  a dangling link in the executable directory; for the second run the destination is
  there, \<^verbatim>\<open>os.path.exists\<close> denies it, and \<^verbatim>\<open>os.symlink\<close> raises \<^verbatim>\<open>FileExistsError\<close>: the
  hook, and with it the run, fails. With the dependency in place the second run of the
  hook changes nothing.
\<close>

theorem moltenvk_hook_fails_on_dangling_link:
  "Builder bare_world ''/r'' xcode_args = Inr (demo_builder xcode_args) \<and>
   run demo_host (demo_builder xcode_args) bare_world = Inr bare_xcode_world \<and>
   kind_at (fs bare_xcode_world)
       [''r'', ''build'', ''gzdoom'', ''xcode'', ''Debug'', ''gzdoom.app'', ''Contents'', ''MacOS'',
        ''libMoltenVK.dylib''] =
     Some (KLink ''/r/prefix/lib/libMoltenVK.dylib'') \<and>
   kind_at (fs bare_xcode_world) [''r'', ''prefix'', ''lib'', ''libMoltenVK.dylib''] = None \<and>
   \<not> os_path_exists bare_xcode_world
       ''/r/build/gzdoom/xcode/Debug/gzdoom.app/Contents/MacOS/libMoltenVK.dylib'' \<and>
   copy_moltenvk (demo_builder xcode_args) bare_xcode_world = Inl FileExistsError \<and>
   run demo_host (demo_builder xcode_args) bare_xcode_world = Inl FileExistsError \<and>
   run demo_host (demo_builder xcode_args) demo_world = Inr xcode_world \<and>
   copy_moltenvk (demo_builder xcode_args) xcode_world = Inr xcode_world"
proof -
  have "\<not> isl (Builder bare_world ''/r'' xcode_args) \<and>
        projr (Builder bare_world ''/r'' xcode_args) = demo_builder xcode_args"
    by code_simp
  then have b: "Builder bare_world ''/r'' xcode_args = Inr (demo_builder xcode_args)"
    by (cases "Builder bare_world ''/r'' xcode_args") simp_all
  have "\<not> isl (run demo_host (demo_builder xcode_args) bare_world)" by code_simp
  then have r1: "run demo_host (demo_builder xcode_args) bare_world = Inr bare_xcode_world"
    by (simp add: bare_xcode_world_def)
  have l: "kind_at (fs bare_xcode_world)
       [''r'', ''build'', ''gzdoom'', ''xcode'', ''Debug'', ''gzdoom.app'', ''Contents'', ''MacOS'',
        ''libMoltenVK.dylib''] =
     Some (KLink ''/r/prefix/lib/libMoltenVK.dylib'')"
    by code_simp
  have t: "kind_at (fs bare_xcode_world) [''r'', ''prefix'', ''lib'', ''libMoltenVK.dylib''] = None"
    by code_simp
  have e: "\<not> os_path_exists bare_xcode_world
       ''/r/build/gzdoom/xcode/Debug/gzdoom.app/Contents/MacOS/libMoltenVK.dylib''"
    by code_simp
  have c: "copy_moltenvk (demo_builder xcode_args) bare_xcode_world = Inl FileExistsError"
    by code_simp
  have r2: "run demo_host (demo_builder xcode_args) bare_xcode_world = Inl FileExistsError"
    by code_simp
  have "\<not> isl (run demo_host (demo_builder xcode_args) demo_world)" by code_simp
  then have r3: "run demo_host (demo_builder xcode_args) demo_world = Inr xcode_world"
    by (simp add: xcode_world_def)
  have "\<not> isl (copy_moltenvk (demo_builder xcode_args) xcode_world) \<and>
        projr (copy_moltenvk (demo_builder xcode_args) xcode_world) = xcode_world"
    by code_simp
  then have c2: "copy_moltenvk (demo_builder xcode_args) xcode_world = Inr xcode_world"
    by (cases "copy_moltenvk (demo_builder xcode_args) xcode_world") simp_all
  from b r1 l t e c r2 r3 c2 show ?thesis by blast
qed

theorem moltenvk_hook_fails_on_dangling_link_witness:
  "xcode (demo_builder xcode_args) \<and>
   post_build (target (demo_builder xcode_args)) = Some Copy_moltenvk \<and>
   \<not> os_path_exists bare_xcode_world (lib_path (demo_builder xcode_args) @ ''libMoltenVK.dylib'') \<and>
   run demo_host (demo_builder xcode_args) bare_world = Inr bare_xcode_world \<and>
   copy_moltenvk (demo_builder xcode_args) bare_xcode_world = Inl FileExistsError"
proof -
  have x: "xcode (demo_builder xcode_args)" by code_simp
  have p: "post_build (target (demo_builder xcode_args)) = Some Copy_moltenvk" by code_simp
  have s: "\<not> os_path_exists bare_xcode_world
             (lib_path (demo_builder xcode_args) @ ''libMoltenVK.dylib'')"
    by code_simp
  from moltenvk_hook_fails_on_dangling_link x p s show ?thesis by simp
qed

subsection \<open>Configuration of the registered targets\<close>

text \<open>
  Claim C5 says that some registered target has no configurator of its own and keeps
  empty build options, while the other targets share the option-assignment routine.
  The registry holds exactly the four targets gzdoom, lzdoom, qzdoom and raze, and each
  of them has a setup method that ends in the shared routine: there is no registered
  target without a configurator, and none whose options stay empty.
\<close>

theorem no_target_without_configurator:
  "\<not> (\<exists>n \<in> set get_target_names.
         getattr_Target (SETUP_PREFIX @ n) = None \<or>
         (\<exists>b t. target_setup (Target n) b = Inr t \<and> cmake_options t = []))"
proof
  assume "\<exists>n \<in> set get_target_names.
         getattr_Target (SETUP_PREFIX @ n) = None \<or>
         (\<exists>b t. target_setup (Target n) b = Inr t \<and> cmake_options t = [])"
  then obtain n where n: "n \<in> set get_target_names"
    and bad: "getattr_Target (SETUP_PREFIX @ n) = None \<or>
         (\<exists>b t. target_setup (Target n) b = Inr t \<and> cmake_options t = [])"
    by blast
  from bad show False
  proof
    assume g: "getattr_Target (SETUP_PREFIX @ n) = None"
    from target_setup_registered [OF n, of "demo_builder demo_args"] show False
      using g by (auto simp: target_setup_def Target_def)
  next
    assume "\<exists>b t. target_setup (Target n) b = Inr t \<and> cmake_options t = []"
    then obtain b t where t: "target_setup (Target n) b = Inr t" "cmake_options t = []"
      by blast
    from target_setup_registered [OF n, of b] obtain t0 where
      t0: "cmake_options t0 = []"
          "target_setup (Target n) b = Inr (assign_zdoom_raze_cmake_options t0 b)"
      by blast
    from t t0(2) option_keys [OF t0(1), of b] show False by simp
  qed
qed

text \<open>
  Claim C5, as amended. Every registered target has a setup method, which configures it
  by the shared option-assignment routine, and after the setup its build options are the
  seven options that routine assigns.
\<close>

theorem every_target_configured:
  "n \<in> set get_target_names \<Longrightarrow>
     getattr_Target (SETUP_PREFIX @ n) \<noteq> None \<and>
     (\<exists>t0. name t0 = n \<and> cmake_options t0 = [] \<and>
           target_setup (Target n) b = Inr (assign_zdoom_raze_cmake_options t0 b)) \<and>
     (\<forall>t. target_setup (Target n) b = Inr t \<longrightarrow>
          map fst (cmake_options t) =
            [''CMAKE_EXE_LINKER_FLAGS'', ''FORCE_INTERNAL_ZLIB'', ''FORCE_INTERNAL_BZIP2'',
             ''PK3_QUIET_ZIPDIR'', ''DYN_OPENAL'', ''OPENAL_INCLUDE_DIR'', ''OPENAL_LIBRARY''])"
proof -
  assume n: "n \<in> set get_target_names"
  from target_setup_registered [OF n, of b] obtain t0 where
    t0: "name t0 = n" "cmake_options t0 = []"
        "target_setup (Target n) b = Inr (assign_zdoom_raze_cmake_options t0 b)"
    by blast
  have keys: "map fst (cmake_options (assign_zdoom_raze_cmake_options t0 b)) =
     [''CMAKE_EXE_LINKER_FLAGS'', ''FORCE_INTERNAL_ZLIB'', ''FORCE_INTERNAL_BZIP2'',
      ''PK3_QUIET_ZIPDIR'', ''DYN_OPENAL'', ''OPENAL_INCLUDE_DIR'', ''OPENAL_LIBRARY'']"
    using option_keys [OF t0(2)] .
  have "getattr_Target (SETUP_PREFIX @ n) \<noteq> None"
    using t0(3) by (auto simp: target_setup_def Target_def split: option.splits)
  with t0 keys show ?thesis by auto
qed

theorem every_target_configured_witness:
  "''raze'' \<in> set get_target_names \<and>
   target_setup (Target ''raze'') (demo_builder demo_args)
     = Inr (setup_raze (Target ''raze'') (demo_builder demo_args)) \<and>
   map fst (cmake_options (setup_raze (Target ''raze'') (demo_builder demo_args))) =
     [''CMAKE_EXE_LINKER_FLAGS'', ''FORCE_INTERNAL_ZLIB'', ''FORCE_INTERNAL_BZIP2'',
      ''PK3_QUIET_ZIPDIR'', ''DYN_OPENAL'', ''OPENAL_INCLUDE_DIR'', ''OPENAL_LIBRARY'']"
proof -
  have r: "''raze'' \<in> set get_target_names" by (simp add: get_target_names_eq)
  have s: "target_setup (Target ''raze'') (demo_builder demo_args)
             = Inr (setup_raze (Target ''raze'') (demo_builder demo_args))"
    by (simp add: target_setup_def getattr_Target_def SETUP_PREFIX_def Target_def)
  from every_target_configured [OF r, of "demo_builder demo_args"] r s show ?thesis by simp
qed

subsection \<open>Failures of detection\<close>

text \<open>
  Claim C6 says that detection fails in exactly two cases: no line matches the pattern,
  and the lower-cased name is not registered. There is a third: \<^verbatim>\<open>open\<close> raises when
  \<^verbatim>\<open>CMakeLists.txt\<close> of the supplied source tree cannot be opened, before any line is
  looked at. In the installation above, \<^verbatim>\<open>--source-path /tmp/nowhere\<close> ends detection,
  and the constructor, with \<^verbatim>\<open>FileNotFoundError\<close>, which is neither the failed assertion
  nor a \<^verbatim>\<open>KeyError\<close> of the registry.
\<close>

theorem unreadable_cmakelists_fails_detection:
  "open_readlines demo_world (''/tmp/nowhere'' @ os_sep @ ''CMakeLists.txt'') =
     Inl FileNotFoundError \<and>
   detect_target demo_world ''/tmp/nowhere'' create_targets = Inl FileNotFoundError \<and>
   FileNotFoundError \<noteq> AssertionError \<and>
   (\<forall>n. FileNotFoundError \<noteq> KeyError n) \<and>
   truthy (arg_target nowhere_args) = None \<and>
   truthy (arg_source_path nowhere_args) = Some ''/tmp/nowhere'' \<and>
   Builder demo_world ''/r'' nowhere_args = Inl FileNotFoundError"
proof -
  have "open_readlines demo_world (''/tmp/nowhere'' @ os_sep @ ''CMakeLists.txt'') =
          Inl FileNotFoundError"
    by code_simp
  moreover have "detect_target demo_world ''/tmp/nowhere'' create_targets = Inl FileNotFoundError"
    by code_simp
  moreover have "truthy (arg_target nowhere_args) = None" by code_simp
  moreover have "truthy (arg_source_path nowhere_args) = Some ''/tmp/nowhere''" by code_simp
  moreover have "Builder demo_world ''/r'' nowhere_args = Inl FileNotFoundError" by code_simp
  ultimately show ?thesis by simp
qed

text \<open>
  Claim C6, as amended. Detection fails in exactly three cases: \<^verbatim>\<open>CMakeLists.txt\<close> of
  the supplied source tree cannot be opened and read, which is the error of \<^verbatim>\<open>open\<close>; no
  line matches the pattern, which fails the assertion; and the lower-cased name is not
  registered, which is a \<^verbatim>\<open>KeyError\<close> of the registry. In every other case it selects
  the registered target of that name. When it fails, the constructor fails with the
  same error and no builder exists; detection and constructor only read the world, so
  nothing has been done by then.
\<close>

theorem detection_failures:
  "detect_target w src create_targets =
     (case open_readlines w (src @ os_sep @ ''CMakeLists.txt'') of
        Inl e \<Rightarrow> Inl e
      | Inr file_lines \<Rightarrow>
          (case scan_project_name file_lines of
             None \<Rightarrow> Inl AssertionError
           | Some n \<Rightarrow>
               if n \<in> set get_target_names then Inr (Target n) else Inl (KeyError n))) \<and>
   (isl (detect_target w src create_targets) \<longleftrightarrow>
      isl (open_readlines w (src @ os_sep @ ''CMakeLists.txt'')) \<or>
      (\<exists>file_lines. open_readlines w (src @ os_sep @ ''CMakeLists.txt'') = Inr file_lines \<and>
         (scan_project_name file_lines = None \<or>
          (\<exists>n. scan_project_name file_lines = Some n \<and> n \<notin> set get_target_names)))) \<and>
   (\<forall>e. truthy (arg_target a) = None \<and> truthy (arg_source_path a) = Some src \<and>
        detect_target w src create_targets = Inl e \<longrightarrow>
      Builder w script_dir a = Inl e)"
proof -
  have eq: "detect_target w src create_targets =
     (case open_readlines w (src @ os_sep @ ''CMakeLists.txt'') of
        Inl e \<Rightarrow> Inl e
      | Inr file_lines \<Rightarrow>
          (case scan_project_name file_lines of
             None \<Rightarrow> Inl AssertionError
           | Some n \<Rightarrow>
               if n \<in> set get_target_names then Inr (Target n) else Inl (KeyError n)))"
  proof (cases "open_readlines w (src @ os_sep @ ''CMakeLists.txt'')")
    case (Inl e)
    then show ?thesis by (simp add: detect_target_def)
  next
    case (Inr file_lines)
    show ?thesis
    proof (cases "scan_project_name file_lines")
      case None
      with Inr show ?thesis by (simp add: detect_target_def truthy_def)
    next
      case (Some n)
      with Inr scan_nonempty [OF Some] show ?thesis
        by (simp add: detect_target_def truthy_def map_of_create_targets)
    qed
  qed
  have iff: "isl (detect_target w src create_targets) \<longleftrightarrow>
      isl (open_readlines w (src @ os_sep @ ''CMakeLists.txt'')) \<or>
      (\<exists>file_lines. open_readlines w (src @ os_sep @ ''CMakeLists.txt'') = Inr file_lines \<and>
         (scan_project_name file_lines = None \<or>
          (\<exists>n. scan_project_name file_lines = Some n \<and> n \<notin> set get_target_names)))"
  proof (cases "open_readlines w (src @ os_sep @ ''CMakeLists.txt'')")
    case (Inl e)
    with eq show ?thesis by simp
  next
    case (Inr file_lines)
    show ?thesis
    proof (cases "scan_project_name file_lines")
      case None
      with Inr eq show ?thesis by simp
    next
      case (Some n)
      with Inr eq show ?thesis by simp
    qed
  qed
  have ctor: "Builder w script_dir a = Inl e"
    if "truthy (arg_target a) = None" "truthy (arg_source_path a) = Some src"
       "detect_target w src create_targets = Inl e" for e
    using that by (simp add: Builder_def select_target_def)
  from eq iff ctor show ?thesis by blast
qed

theorem detection_failures_witness:
  "open_readlines demo_world (''/tmp/nowhere'' @ os_sep @ ''CMakeLists.txt'') =
     Inl FileNotFoundError \<and>
   detect_target demo_world ''/tmp/nowhere'' create_targets = Inl FileNotFoundError \<and>
   open_readlines demo_world (''/tmp/empty'' @ os_sep @ ''CMakeLists.txt'') =
     Inr [''add_subdirectory(src)'' @ [CHR 0x0A]] \<and>
   scan_project_name [''add_subdirectory(src)'' @ [CHR 0x0A]] = None \<and>
   detect_target demo_world ''/tmp/empty'' create_targets = Inl AssertionError \<and>
   open_readlines demo_world (''/tmp/other'' @ os_sep @ ''CMakeLists.txt'') =
     Inr [''project(PrBoom)'' @ [CHR 0x0A]] \<and>
   scan_project_name [''project(PrBoom)'' @ [CHR 0x0A]] = Some ''prboom'' \<and>
   ''prboom'' \<notin> set get_target_names \<and>
   detect_target demo_world ''/tmp/other'' create_targets = Inl (KeyError ''prboom'') \<and>
   truthy (arg_target nowhere_args) = None \<and>
   truthy (arg_source_path nowhere_args) = Some ''/tmp/nowhere'' \<and>
   Builder demo_world ''/r'' nowhere_args = Inl FileNotFoundError"
proof -
  have f0: "open_readlines demo_world (''/tmp/nowhere'' @ os_sep @ ''CMakeLists.txt'') =
     Inl FileNotFoundError" by code_simp
  have f1: "open_readlines demo_world (''/tmp/other'' @ os_sep @ ''CMakeLists.txt'') =
     Inr [''project(PrBoom)'' @ [CHR 0x0A]]" by code_simp
  have s1: "scan_project_name [''project(PrBoom)'' @ [CHR 0x0A]] = Some ''prboom''" by code_simp
  have n1: "''prboom'' \<notin> set get_target_names" by (simp add: get_target_names_eq)
  have f2: "open_readlines demo_world (''/tmp/empty'' @ os_sep @ ''CMakeLists.txt'') =
     Inr [''add_subdirectory(src)'' @ [CHR 0x0A]]" by code_simp
  have s2: "scan_project_name [''add_subdirectory(src)'' @ [CHR 0x0A]] = None" by code_simp
  have t: "truthy (arg_target nowhere_args) = None" by code_simp
  have p: "truthy (arg_source_path nowhere_args) = Some ''/tmp/nowhere''" by code_simp
  from detection_failures [of demo_world "''/tmp/nowhere''" nowhere_args "''/r''"] f0
  have d0: "detect_target demo_world ''/tmp/nowhere'' create_targets = Inl FileNotFoundError"
    by simp
  from detection_failures [of demo_world "''/tmp/nowhere''" nowhere_args "''/r''"] d0 t p
  have b0: "Builder demo_world ''/r'' nowhere_args = Inl FileNotFoundError"
    by blast
  from detection_failures [of demo_world "''/tmp/other''"] f1 s1 n1
  have d1: "detect_target demo_world ''/tmp/other'' create_targets = Inl (KeyError ''prboom'')"
    by simp
  from detection_failures [of demo_world "''/tmp/empty''"] f2 s2
  have d2: "detect_target demo_world ''/tmp/empty'' create_targets = Inl AssertionError"
    by simp
  from f0 d0 f2 s2 d2 f1 s1 n1 d1 t p b0 show ?thesis by blast
qed

subsection \<open>Packaging in IDE-project mode\<close>

text \<open>
  Claim C7. In IDE-project (xcode) mode the packaging stage is never executed, also when
  a package is requested: \<open>make_package\<close> returns at once and leaves the world as it is, so
  no version tag is read, no archive is deleted and none is created, and a run is the
  first four stages.
\<close>

theorem packaging_skipped_in_xcode_mode:
  "xcode b \<Longrightarrow>
     make_package h b w = Inr w \<and>
     run h b w =
       (case create_prefix_directory b w of
          Inl e \<Rightarrow> Inl e
        | Inr w1 \<Rightarrow>
            (case prepare_source h b w1 of
               Inl e \<Rightarrow> Inl e
             | Inr w2 \<Rightarrow>
                 (case generate_cmake h b w2 of
                    Inl e \<Rightarrow> Inl e
                  | Inr w3 \<Rightarrow> build_target h b w3)))"
  by (auto simp: make_package_def run_def split: sum.splits)

theorem packaging_skipped_in_xcode_mode_witness:
  "xcode (demo_builder xcode_args) \<and> create_package (demo_builder xcode_args) \<and>
   make_package demo_host (demo_builder xcode_args) demo_world = Inr demo_world"
proof -
  have x: "xcode (demo_builder xcode_args)" by code_simp
  have c: "create_package (demo_builder xcode_args)" by code_simp
  from packaging_skipped_in_xcode_mode [OF x] x c show ?thesis by blast
qed

subsection \<open>Dependencies without headers or libraries\<close>

text \<open>
  Claim C8. During prefix preparation a dependency that lacks its \<^verbatim>\<open>include\<close> or its
  \<^verbatim>\<open>lib\<close> directory is skipped silently: its turn in the loop ends without an error and
  leaves the world as it is, so no symbolic link is made for it, and the loop goes on
  with the remaining dependencies.
\<close>

theorem incomplete_dependency_skipped:
  "\<not> os_path_exists w (os_path_join (deps_path b) dep @ os_sep @ ''include'' @ os_sep) \<or>
   \<not> os_path_exists w (os_path_join (deps_path b) dep @ os_sep @ ''lib'' @ os_sep) \<Longrightarrow>
     link_dependency b dep w = Inr w \<and>
     link_dependencies b (dep # rest) w = link_dependencies b rest w"
  by (auto simp: link_dependency_def Let_def)

theorem incomplete_dependency_skipped_witness:
  "\<not> os_path_exists demo_world (os_path_join (deps_path (demo_builder demo_args)) ''docs''
                                 @ os_sep @ ''lib'' @ os_sep) \<and>
   link_dependency (demo_builder demo_args) ''docs'' demo_world = Inr demo_world \<and>
   link_dependencies (demo_builder demo_args) [''docs''] demo_world = Inr demo_world"
proof -
  have n: "\<not> os_path_exists demo_world (os_path_join (deps_path (demo_builder demo_args)) ''docs''
                                 @ os_sep @ ''lib'' @ os_sep)"
    by code_simp
  from incomplete_dependency_skipped [OF disjI2, OF n, of "[]"] n show ?thesis by simp
qed

subsection \<open>Trailing separators\<close>

text \<open>
  Claim C9. Whenever the constructor succeeds, the source root and the build root end
  with the path separator. A path supplied by the user gets the separator appended
  whether or not it has one already.
\<close>

theorem roots_end_with_separator:
  "Builder w script_dir a = Inr b \<Longrightarrow>
     ends_with_sep (source_path b) \<and> ends_with_sep (build_path b) \<and>
     (\<forall>p. truthy (arg_build_path a) = Some p \<longrightarrow> build_path b = p @ os_sep) \<and>
     (\<forall>s. truthy (arg_target a) = None \<and> truthy (arg_source_path a) = Some s
           \<longrightarrow> source_path b = s @ os_sep)"
  by (auto simp: Builder_def select_target_def Let_def ends_with_sep_def os_sep_def
           split: sum.splits option.splits)

theorem roots_end_with_separator_witness:
  "Builder demo_world ''/r'' source_args = Inr (demo_builder source_args) \<and>
   source_path (demo_builder source_args) = ''/tmp/mysrc/'' \<and>
   build_path (demo_builder source_args) = ''/r/out//'' \<and>
   ends_with_sep (source_path (demo_builder source_args)) \<and>
   ends_with_sep (build_path (demo_builder source_args))"
proof -
  have "\<not> isl (Builder demo_world ''/r'' source_args)" by code_simp
  then have b: "Builder demo_world ''/r'' source_args = Inr (demo_builder source_args)"
    by (simp add: demo_builder_def)
  have s: "source_path (demo_builder source_args) = ''/tmp/mysrc/''" by code_simp
  have p: "build_path (demo_builder source_args) = ''/r/out//''" by code_simp
  from roots_end_with_separator [OF b] b s p show ?thesis by blast
qed

subsection \<open>Skipping the generation of build files\<close>




end
